theory Spec2Isabelle
  imports Complex_Main "HOL-Library.Log_Nat"
begin

section \<open>The hexahedral element kernel of NimbleSM\<close>

text \<open>
  This theory embeds the templated kernels of \<^verbatim>\<open>src/nimble_element.h\<close>
  (class \<^verbatim>\<open>HexElement\<close>), in two readings of the C++ type \<^verbatim>\<open>double\<close>.

  In the first reading \<^verbatim>\<open>double\<close> is \<^typ>\<open>real\<close>: arithmetic is exact,
  there is no rounding and no overflow. The one operation of the kernels that has no
  value over the reals, a division by zero, is written out (\<open>fp_div\<close> below) instead
  of being left to the convention \<open>x / 0 = 0\<close>.

  In the second reading, further down, the kernels whose results depend on rounding
  are written once more over an arbitrary scalar type and run on a model of binary64
  numbers, in which every operation rounds to the nearest representable number.
\<close>

subsection \<open>Data\<close>

text \<open>
  The condition that the inversion signals. \<open>InvalidInputShape\<close>, the other condition
  of the specification, is a precondition on the buffers that no kernel checks.
\<close>

datatype error = DegenerateGeometry

text \<open>
  A local \<^verbatim>\<open>double m[][3]\<close> holding three rows of three entries is a triple of
  triples, \<open>((m00, m01, m02), (m10, m11, m12), (m20, m21, m22))\<close>.
\<close>

type_synonym vec3 = "real \<times> real \<times> real"
type_synonym mat3 = "vec3 \<times> vec3 \<times> vec3"

text \<open>
  The view arguments of the templates only have to support the indexed access
  \<^verbatim>\<open>v(i, j)\<close>; a view is the function from the two indices to the entry. Writing
  \<^verbatim>\<open>v(i, j) = x\<close> is a function update, so an output view is passed in with its
  earlier contents and returned updated.
\<close>

type_synonym view2 = "nat \<Rightarrow> nat \<Rightarrow> real"

text \<open>
  \<^verbatim>\<open>Invert3x3\<close> lives in \<^verbatim>\<open>nimble_utils.h\<close>. The kernels call it as
  \<^verbatim>\<open>jac_det = Invert3x3(a, a_inv)\<close>: it receives a matrix, fills the inverse and
  returns the determinant. The kernels take it as a parameter of this type; a failure
  it signals leaves the calling kernel at once, since no kernel catches anything.
\<close>

type_synonym inverter = "mat3 \<Rightarrow> error + (mat3 \<times> real)"

text \<open>The private data members of \<^verbatim>\<open>HexElement\<close>, filled by its constructor.\<close>

record HexElement =
  int_pts :: "real list"
  int_wts :: "real list"
  shape_fcn_vals :: "real list"
  shape_fcn_deriv :: "real list"

text \<open>The index constants of class \<^verbatim>\<open>Element\<close>: symmetric and full tensors.\<close>

definition K_S_XX :: nat where "K_S_XX = 0"
definition K_S_YY :: nat where "K_S_YY = 1"
definition K_S_ZZ :: nat where "K_S_ZZ = 2"
definition K_S_XY :: nat where "K_S_XY = 3"
definition K_S_YZ :: nat where "K_S_YZ = 4"
definition K_S_ZX :: nat where "K_S_ZX = 5"
definition K_S_YX :: nat where "K_S_YX = 3"
definition K_S_ZY :: nat where "K_S_ZY = 4"
definition K_S_XZ :: nat where "K_S_XZ = 5"

definition K_F_XX :: nat where "K_F_XX = 0"
definition K_F_YY :: nat where "K_F_YY = 1"
definition K_F_ZZ :: nat where "K_F_ZZ = 2"
definition K_F_XY :: nat where "K_F_XY = 3"
definition K_F_YZ :: nat where "K_F_YZ = 4"
definition K_F_ZX :: nat where "K_F_ZX = 5"
definition K_F_YX :: nat where "K_F_YX = 6"
definition K_F_ZY :: nat where "K_F_ZY = 7"
definition K_F_XZ :: nat where "K_F_XZ = 8"

definition dim :: nat where "dim = 3"
definition num_nodes :: nat where "num_nodes = 8"
definition num_int_pts :: nat where "num_int_pts = 8"

subsection \<open>Loops that can fail\<close>

text \<open>
  A counted \<^verbatim>\<open>for\<close> loop whose body may signal an error: the loop stops at the first
  error, as a C++ exception leaving the body would.
\<close>

fun for_loop :: "nat list \<Rightarrow> (nat \<Rightarrow> 's \<Rightarrow> error + 's) \<Rightarrow> 's \<Rightarrow> error + 's" where
  "for_loop [] body s = Inr s"
| "for_loop (i # is) body s =
     (case body i s of Inl e \<Rightarrow> Inl e | Inr s' \<Rightarrow> for_loop is body s')"

subsection \<open>The Jacobian sum over the nodes\<close>

definition zero3 :: mat3 where
  "zero3 = ((0, 0, 0), (0, 0, 0), (0, 0, 0))"

text \<open>
  The nine statements \<^verbatim>\<open>a[0][0] += cc1 * sfd1; ... a[2][2] += cc3 * sfd3;\<close> that
  every kernel runs for one node.
\<close>

fun accumulate :: "mat3 \<Rightarrow> vec3 \<Rightarrow> vec3 \<Rightarrow> mat3" where
  "accumulate ((a00, a01, a02), (a10, a11, a12), (a20, a21, a22)) (c1, c2, c3) (sfd1, sfd2, sfd3) =
     ((a00 + c1 * sfd1, a01 + c1 * sfd2, a02 + c1 * sfd3),
      (a10 + c2 * sfd1, a11 + c2 * sfd2, a12 + c2 * sfd3),
      (a20 + c3 * sfd1, a21 + c3 * sfd2, a22 + c3 * sfd3))"

text \<open>
  \<^verbatim>\<open>sfd1 = shape_fcn_deriv_[24 * int_pt + dim_ * n]\<close> and its two neighbours.
\<close>

definition sfd :: "HexElement \<Rightarrow> nat \<Rightarrow> nat \<Rightarrow> vec3" where
  "sfd el int_pt n =
     (shape_fcn_deriv el ! (24 * int_pt + dim * n),
      shape_fcn_deriv el ! (24 * int_pt + dim * n + 1),
      shape_fcn_deriv el ! (24 * int_pt + dim * n + 2))"

definition coords_of :: "view2 \<Rightarrow> nat \<Rightarrow> vec3" where
  "coords_of v n = (v n 0, v n 1, v n 2)"

text \<open>\<^verbatim>\<open>cc1 = node_reference_coords(n, 0) + node_displacements(n, 0)\<close> and so on.\<close>

definition current_coords :: "view2 \<Rightarrow> view2 \<Rightarrow> view2" where
  "current_coords node_reference_coords node_displacements =
     (\<lambda>n k. node_reference_coords n k + node_displacements n k)"

text \<open>
  The inner loop \<^verbatim>\<open>for (int n = 0; n < num_nodes_; n++)\<close> that builds the matrix
  \<^verbatim>\<open>a\<close> of one integration point from the coordinates of the eight nodes.
\<close>

definition jacobian :: "HexElement \<Rightarrow> view2 \<Rightarrow> nat \<Rightarrow> mat3" where
  "jacobian el coords int_pt =
     fold (\<lambda>n a. accumulate a (coords_of coords n) (sfd el int_pt n)) [0..<num_nodes] zero3"

subsection \<open>Consistent mass\<close>

text \<open>
  The innermost loop of \<^verbatim>\<open>ComputeConsistentMass_impl\<close>: the entry is set to
  \<open>0.0\<close> and then receives one summand per integration point.
\<close>

definition mass_entry :: "HexElement \<Rightarrow> real \<Rightarrow> (nat \<Rightarrow> real) \<Rightarrow> nat \<Rightarrow> nat \<Rightarrow> real" where
  "mass_entry el density jac_det i j =
     fold (\<lambda>int_pt m. m + int_wts el ! int_pt * density
                            * shape_fcn_vals el ! (int_pt * num_nodes + i)
                            * shape_fcn_vals el ! (int_pt * num_nodes + j) * jac_det int_pt)
       [0..<num_int_pts] 0"

text \<open>
  The first loop fills the local array \<^verbatim>\<open>jac_det\<close>, which C++ leaves uninitialised;
  every entry is written before it is read, so its initial contents do not matter and
  are taken to be zero. The loop over \<open>j\<close> writes row \<open>i\<close> of the matrix only.
\<close>

definition ComputeConsistentMass_impl ::
  "inverter \<Rightarrow> HexElement \<Rightarrow> real \<Rightarrow> view2 \<Rightarrow> view2 \<Rightarrow> error + view2" where
  "ComputeConsistentMass_impl inv3x3 el density node_reference_coords consistent_mass_matrix =
     (case for_loop [0..<num_int_pts]
             (\<lambda>int_pt jac_det.
                case inv3x3 (jacobian el node_reference_coords int_pt) of
                  Inl e \<Rightarrow> Inl e
                | Inr (a_inv, det) \<Rightarrow> Inr (jac_det(int_pt := det)))
             (\<lambda>_. 0) of
        Inl e \<Rightarrow> Inl e
      | Inr jac_det \<Rightarrow>
          Inr (fold (\<lambda>i M. M(i := fold (\<lambda>j row. row(j := mass_entry el density jac_det i j))
                                     [0..<num_nodes] (M i)))
                 [0..<num_nodes] consistent_mass_matrix))"

subsection \<open>Volume averages\<close>

text \<open>
  Over the reals a quotient by zero has no value; a \<^verbatim>\<open>double\<close> division by zero
  gives an infinity or a NaN. \<open>None\<close> stands for such a result.
\<close>

definition fp_div :: "real \<Rightarrow> real \<Rightarrow> real option" where
  "fp_div x y = (if y = 0 then None else Some (x / y))"

text \<open>
  \<^verbatim>\<open>vol_ave\<close> is the \<^verbatim>\<open>std::vector<double>\<close> of \<open>num_quantities\<close> zeros. The
  loop state is this vector and \<^verbatim>\<open>volume\<close>. The result is the volume together with
  the output view; an entry of the output view is \<open>None\<close> when the division that
  produced it was a division by zero.
\<close>

definition ComputeVolumeAverageQuantities_impl ::
  "inverter \<Rightarrow> HexElement \<Rightarrow> view2 \<Rightarrow> view2 \<Rightarrow> view2 \<Rightarrow> (nat \<Rightarrow> real option) \<Rightarrow> nat
     \<Rightarrow> error + (real \<times> (nat \<Rightarrow> real option))" where
  "ComputeVolumeAverageQuantities_impl inv3x3 el node_reference_coords node_displacements
       int_pt_quantities vol_ave_quantity num_quantities =
     (case for_loop [0..<num_int_pts]
             (\<lambda>int_pt (vol_ave, volume).
                case inv3x3 (jacobian el (current_coords node_reference_coords node_displacements) int_pt) of
                  Inl e \<Rightarrow> Inl e
                | Inr (a_inv, jac_det) \<Rightarrow>
                    Inr (fold (\<lambda>i va. va[i := va ! i + int_pt_quantities int_pt i * int_wts el ! int_pt * jac_det])
                           [0..<num_quantities] vol_ave,
                         volume + jac_det))
             (replicate num_quantities 0, 0) of
        Inl e \<Rightarrow> Inl e
      | Inr (vol_ave, volume) \<Rightarrow>
          Inr (volume,
               fold (\<lambda>i out. out(i := fp_div (vol_ave ! i) volume)) [0..<num_quantities] vol_ave_quantity))"

text \<open>
  The effect of one integration point on the loop state when the inversion succeeds
  with the determinant \<open>D p\<close>; the proofs below unfold the loop into these steps.
\<close>

definition vol_ave_step ::
  "HexElement \<Rightarrow> view2 \<Rightarrow> nat \<Rightarrow> (nat \<Rightarrow> real) \<Rightarrow> nat \<Rightarrow> real list \<times> real
     \<Rightarrow> real list \<times> real" where
  "vol_ave_step el q nq D p = (\<lambda>(vol_ave, volume).
     (fold (\<lambda>i va. va[i := va ! i + q p i * int_wts el ! p * D p]) [0..<nq] vol_ave, volume + D p))"

subsection \<open>Deformation gradients\<close>

text \<open>
  The two nested loops over \<open>j\<close> and \<open>k\<close> that fill \<^verbatim>\<open>def_grad\<close>:
  \<^verbatim>\<open>def_grad[j][k] = a[j][0] * b_inv[0][k] + a[j][1] * b_inv[1][k] + a[j][2] * b_inv[2][k]\<close>.
\<close>

fun mat_mul :: "mat3 \<Rightarrow> mat3 \<Rightarrow> mat3" where
  "mat_mul ((a00, a01, a02), (a10, a11, a12), (a20, a21, a22))
           ((b00, b01, b02), (b10, b11, b12), (b20, b21, b22)) =
     ((a00 * b00 + a01 * b10 + a02 * b20, a00 * b01 + a01 * b11 + a02 * b21, a00 * b02 + a01 * b12 + a02 * b22),
      (a10 * b00 + a11 * b10 + a12 * b20, a10 * b01 + a11 * b11 + a12 * b21, a10 * b02 + a11 * b12 + a12 * b22),
      (a20 * b00 + a21 * b10 + a22 * b20, a20 * b01 + a21 * b11 + a22 * b21, a20 * b02 + a21 * b12 + a22 * b22))"

text \<open>The nine assignments to \<^verbatim>\<open>deformation_gradients(int_pt, K_F_..)\<close>, in their order.\<close>

fun store_def_grad :: "mat3 \<Rightarrow> (nat \<Rightarrow> real) \<Rightarrow> (nat \<Rightarrow> real)" where
  "store_def_grad ((f00, f01, f02), (f10, f11, f12), (f20, f21, f22)) row =
     row(K_F_XX := f00, K_F_XY := f01, K_F_XZ := f02,
         K_F_YX := f10, K_F_YY := f11, K_F_YZ := f12,
         K_F_ZX := f20, K_F_ZY := f21, K_F_ZZ := f22)"

text \<open>
  One pass over the nodes accumulates both \<^verbatim>\<open>a\<close> (current coordinates) and
  \<^verbatim>\<open>b\<close> (reference coordinates). The determinant that the inversion returns is
  dropped, as in the source.
\<close>

definition ComputeDeformationGradients_impl ::
  "inverter \<Rightarrow> HexElement \<Rightarrow> view2 \<Rightarrow> view2 \<Rightarrow> view2 \<Rightarrow> error + view2" where
  "ComputeDeformationGradients_impl inv3x3 el node_reference_coords node_displacements
       deformation_gradients =
     for_loop [0..<8]
       (\<lambda>int_pt dg.
          case fold (\<lambda>j (a, b).
                       (accumulate a (coords_of (current_coords node_reference_coords node_displacements) j)
                          (sfd el int_pt j),
                        accumulate b (coords_of node_reference_coords j) (sfd el int_pt j)))
                 [0..<8] (zero3, zero3) of
            (a, b) \<Rightarrow>
              (case inv3x3 b of
                 Inl e \<Rightarrow> Inl e
               | Inr (b_inv, _) \<Rightarrow> Inr (dg(int_pt := store_def_grad (mat_mul a b_inv) (dg int_pt)))))
       deformation_gradients"

subsection \<open>Nodal forces\<close>

text \<open>
  The body of the loop over \<open>node\<close>: the spatial derivatives of the shape function,
  the three force components, their scaling and the subtraction from the local array
  \<^verbatim>\<open>force\<close>.
\<close>

fun node_force_step ::
  "HexElement \<Rightarrow> view2 \<Rightarrow> nat \<Rightarrow> mat3 \<Rightarrow> real \<Rightarrow> nat \<Rightarrow> view2 \<Rightarrow> view2" where
  "node_force_step el int_pt_stresses int_pt
       ((i00, i01, i02), (i10, i11, i12), (i20, i21, i22)) jac_det node force =
     (case sfd el int_pt node of
        (d1, d2, d3) \<Rightarrow>
          let dN_dx1 = d1 * i00 + d2 * i10 + d3 * i20;
              dN_dx2 = d1 * i01 + d2 * i11 + d3 * i21;
              dN_dx3 = d1 * i02 + d2 * i12 + d3 * i22;
              f1 = dN_dx1 * int_pt_stresses int_pt K_S_XX + dN_dx2 * int_pt_stresses int_pt K_S_YX
                   + dN_dx3 * int_pt_stresses int_pt K_S_ZX;
              f2 = dN_dx1 * int_pt_stresses int_pt K_S_XY + dN_dx2 * int_pt_stresses int_pt K_S_YY
                   + dN_dx3 * int_pt_stresses int_pt K_S_ZY;
              f3 = dN_dx1 * int_pt_stresses int_pt K_S_XZ + dN_dx2 * int_pt_stresses int_pt K_S_YZ
                   + dN_dx3 * int_pt_stresses int_pt K_S_ZZ;
              f1 = f1 * (jac_det * int_wts el ! int_pt);
              f2 = f2 * (jac_det * int_wts el ! int_pt);
              f3 = f3 * (jac_det * int_wts el ! int_pt)
          in force(node := (force node)(0 := force node 0 - f1,
                                        1 := force node 1 - f2,
                                        2 := force node 2 - f3)))"

text \<open>The final loop, \<^verbatim>\<open>node_forces(node, 0) = force[node][0]\<close> and so on.\<close>

definition write_forces :: "view2 \<Rightarrow> view2 \<Rightarrow> view2" where
  "write_forces force node_forces =
     fold (\<lambda>node nf. nf(node := (nf node)(0 := force node 0, 1 := force node 1, 2 := force node 2)))
       [0..<num_nodes] node_forces"

text \<open>
  The local array \<^verbatim>\<open>force\<close> starts as zeros. The argument \<open>node_forces\<close> is the
  output view with whatever it held before the call.
\<close>

definition ComputeNodalForces_impl ::
  "inverter \<Rightarrow> HexElement \<Rightarrow> view2 \<Rightarrow> view2 \<Rightarrow> view2 \<Rightarrow> view2 \<Rightarrow> error + view2" where
  "ComputeNodalForces_impl inv3x3 el node_reference_coords node_displacements int_pt_stresses
       node_forces =
     (case for_loop [0..<num_int_pts]
             (\<lambda>int_pt force.
                case inv3x3 (jacobian el (current_coords node_reference_coords node_displacements) int_pt) of
                  Inl e \<Rightarrow> Inl e
                | Inr (a_inv, jac_det) \<Rightarrow>
                    Inr (fold (node_force_step el int_pt_stresses int_pt a_inv jac_det)
                           [0..<num_nodes] force))
             (\<lambda>_ _. 0) of
        Inl e \<Rightarrow> Inl e
      | Inr force \<Rightarrow> Inr (write_forces force node_forces))"

subsection \<open>The parts that are not in the header\<close>

text \<open>
  Modelled from the spec: \<^verbatim>\<open>Invert3x3\<close> of \<^verbatim>\<open>nimble_utils.h\<close>, which the
  header includes and which is defined outside it. Section 4.3: the
  determinant by the cofactor expansion, the inverse as the adjugate divided by the
  determinant, and the condition \<open>DegenerateGeometry\<close> when the magnitude of the
  determinant is at or below a small threshold. The specification gives no value for
  the threshold, so it is the parameter \<open>tol\<close>.
\<close>

fun det3 :: "mat3 \<Rightarrow> real" where
  "det3 ((m00, m01, m02), (m10, m11, m12), (m20, m21, m22)) =
     m00 * (m11 * m22 - m12 * m21) - m01 * (m10 * m22 - m12 * m20)
       + m02 * (m10 * m21 - m11 * m20)"

fun adjugate :: "mat3 \<Rightarrow> mat3" where
  "adjugate ((m00, m01, m02), (m10, m11, m12), (m20, m21, m22)) =
     ((m11 * m22 - m12 * m21, m02 * m21 - m01 * m22, m01 * m12 - m02 * m11),
      (m12 * m20 - m10 * m22, m00 * m22 - m02 * m20, m02 * m10 - m00 * m12),
      (m10 * m21 - m11 * m20, m01 * m20 - m00 * m21, m00 * m11 - m01 * m10))"

fun scale3 :: "real \<Rightarrow> mat3 \<Rightarrow> mat3" where
  "scale3 c ((m00, m01, m02), (m10, m11, m12), (m20, m21, m22)) =
     ((c * m00, c * m01, c * m02), (c * m10, c * m11, c * m12), (c * m20, c * m21, c * m22))"

definition diag3 :: "real \<Rightarrow> mat3" where
  "diag3 s = ((s, 0, 0), (0, s, 0), (0, 0, s))"

definition Invert3x3 :: "real \<Rightarrow> inverter" where
  "Invert3x3 tol mat =
     (let det = det3 mat
      in if \<bar>det\<bar> \<le> tol then Inl DegenerateGeometry
         else Inr (scale3 (1 / det) (adjugate mat), det))"

text \<open>
  Modelled from the spec: the constructor \<^verbatim>\<open>HexElement::HexElement()\<close> and the
  two table builders \<^verbatim>\<open>ShapeFunctionValues\<close> and \<^verbatim>\<open>ShapeFunctionDerivatives\<close>,
  declared in the header and defined elsewhere. Section 4.2: the 2 x 2 x 2 Gauss rule
  with the points at \<open>\<plusminus> 1 / sqrt 3\<close> in each natural coordinate and unit weights, the
  standard trilinear basis \<open>N\<^sub>i = (1 \<plusminus> r) (1 \<plusminus> s) (1 \<plusminus> t) / 8\<close>, the derivatives stored
  integration point by integration point, then node by node, then by natural
  coordinate. The specification does not fix the order of the points; nodes and
  points are taken in the usual order of the eight-node brick, the bottom face
  counter-clockwise and then the top face.
\<close>

definition gauss_coord :: real where
  "gauss_coord = 1 / sqrt 3"

fun ShapeFunctionValues :: "real list \<Rightarrow> real list" where
  "ShapeFunctionValues (r # s # t # natural_coords) =
     [(1 - r) * (1 - s) * (1 - t) / 8,
      (1 + r) * (1 - s) * (1 - t) / 8,
      (1 + r) * (1 + s) * (1 - t) / 8,
      (1 - r) * (1 + s) * (1 - t) / 8,
      (1 - r) * (1 - s) * (1 + t) / 8,
      (1 + r) * (1 - s) * (1 + t) / 8,
      (1 + r) * (1 + s) * (1 + t) / 8,
      (1 - r) * (1 + s) * (1 + t) / 8] @ ShapeFunctionValues natural_coords"
| "ShapeFunctionValues _ = []"

fun ShapeFunctionDerivatives :: "real list \<Rightarrow> real list" where
  "ShapeFunctionDerivatives (r # s # t # natural_coords) =
     [- (1 - s) * (1 - t) / 8, - (1 - r) * (1 - t) / 8, - (1 - r) * (1 - s) / 8,
      (1 - s) * (1 - t) / 8, - (1 + r) * (1 - t) / 8, - (1 + r) * (1 - s) / 8,
      (1 + s) * (1 - t) / 8, (1 + r) * (1 - t) / 8, - (1 + r) * (1 + s) / 8,
      - (1 + s) * (1 - t) / 8, (1 - r) * (1 - t) / 8, - (1 - r) * (1 + s) / 8,
      - (1 - s) * (1 + t) / 8, - (1 - r) * (1 + t) / 8, (1 - r) * (1 - s) / 8,
      (1 - s) * (1 + t) / 8, - (1 + r) * (1 + t) / 8, (1 + r) * (1 - s) / 8,
      (1 + s) * (1 + t) / 8, (1 + r) * (1 + t) / 8, (1 + r) * (1 + s) / 8,
      - (1 + s) * (1 + t) / 8, (1 - r) * (1 + t) / 8, (1 - r) * (1 + s) / 8]
     @ ShapeFunctionDerivatives natural_coords"
| "ShapeFunctionDerivatives _ = []"

definition gauss_points :: "real list" where
  "gauss_points =
     (let g = gauss_coord
      in [- g, - g, - g,   g, - g, - g,   g, g, - g,   - g, g, - g,
          - g, - g, g,     g, - g, g,     g, g, g,     - g, g, g])"

definition new_HexElement :: HexElement where
  "new_HexElement =
     \<lparr> int_pts = gauss_points,
       int_wts = replicate num_int_pts 1,
       shape_fcn_vals = ShapeFunctionValues gauss_points,
       shape_fcn_deriv = ShapeFunctionDerivatives gauss_points \<rparr>"

text \<open>
  Modelled from the spec: \<^verbatim>\<open>HexElement::ComputeLumpedMass\<close>, declared in the header
  and defined elsewhere. Section 4.4: for each integration point the Jacobian of the
  reference configuration is built and inverted for its determinant, and
  \<open>weight * density * shapeValue\<^sub>i * determinant\<close> is accumulated into the mass of node
  \<open>i\<close>, for every node, at every integration point.
\<close>

definition ComputeLumpedMass ::
  "inverter \<Rightarrow> HexElement \<Rightarrow> real \<Rightarrow> view2 \<Rightarrow> error + (nat \<Rightarrow> real)" where
  "ComputeLumpedMass inv3x3 el density node_reference_coords =
     for_loop [0..<num_int_pts]
       (\<lambda>int_pt lumped_mass.
          case inv3x3 (jacobian el node_reference_coords int_pt) of
            Inl e \<Rightarrow> Inl e
          | Inr (a_inv, jac_det) \<Rightarrow>
              Inr (fold (\<lambda>i m. m(i := m i + int_wts el ! int_pt * density
                                          * shape_fcn_vals el ! (int_pt * num_nodes + i) * jac_det))
                     [0..<num_nodes] lumped_mass))
       (\<lambda>_. 0)"

text \<open>
  Modelled from the spec: \<^verbatim>\<open>HexElement::ComputeTangent\<close>, declared in the header and
  defined elsewhere. Section 4.5 fixes only that it reuses the Jacobian machinery and
  that its core mirrors the integration of the nodal forces with the material tangent
  in the place of the stress: for each integration point the Jacobian of the node
  coordinates is built and inverted, and a contribution is added to the element
  tangent. What is added, from the material tangent, the inverse and the determinant,
  is not described; it is the parameter \<open>integrate\<close>.
\<close>

definition ComputeTangent ::
  "inverter \<Rightarrow> ('m \<Rightarrow> nat \<Rightarrow> mat3 \<Rightarrow> real \<Rightarrow> 't \<Rightarrow> 't) \<Rightarrow> HexElement \<Rightarrow> view2 \<Rightarrow> 'm \<Rightarrow> 't
     \<Rightarrow> error + 't" where
  "ComputeTangent inv3x3 integrate el node_current_coords material_tangent element_tangent =
     for_loop [0..<num_int_pts]
       (\<lambda>int_pt tangent.
          case inv3x3 (jacobian el node_current_coords int_pt) of
            Inl e \<Rightarrow> Inl e
          | Inr (a_inv, jac_det) \<Rightarrow> Inr (integrate material_tangent int_pt a_inv jac_det tangent))
       element_tangent"

text \<open>The unit cube, the geometry at which the theorems below are exercised.\<close>

definition unit_cube :: view2 where
  "unit_cube n k =
     [[0, 0, 0], [1, 0, 0], [1, 1, 0], [0, 1, 0],
      [0, 0, 1], [1, 0, 1], [1, 1, 1], [0, 1, 1]] ! n ! k"

section \<open>The kernels in binary64 arithmetic\<close>

subsection \<open>Binary64 numbers\<close>

text \<open>
  A binary64 number is \<open>Dbl m e\<close>, standing for \<open>m * 2 ^ e\<close>; it is zero,
  \<open>Dbl 0 0\<close>, or has a significand of exactly 53 bits,
  \<open>2 ^ 52 \<le> \<bar>m\<bar> < 2 ^ 53\<close>, so that equal numbers are equal terms. The exponent is
  unbounded: overflow, subnormal numbers, infinities, NaN and the sign of zero are not
  modelled, and none of the values computed below comes near them.
\<close>

datatype double = Dbl int int

definition double_val :: "double \<Rightarrow> real" where
  "double_val x = (case x of Dbl m e \<Rightarrow> of_int m * 2 powr of_int e)"

text \<open>The number of binary digits of a positive integer, in steps of 64, 8 and 1.\<close>

function bit_length :: "int \<Rightarrow> int" where
  "bit_length a =
     (if a \<le> 0 then 0
      else if 2 ^ 64 \<le> a then 64 + bit_length (a div 2 ^ 64)
      else if 2 ^ 8 \<le> a then 8 + bit_length (a div 2 ^ 8)
      else 1 + bit_length (a div 2))"
  by pat_completeness auto
termination
  by (relation "measure nat") (auto intro: int_div_less_self)

declare bit_length.simps [simp del]

text \<open>
  Rounding of the exact value \<open>m * 2 ^ e\<close> to binary64, to the nearest number and to
  the even significand on a tie: the significand is cut to 53 bits, \<open>r\<close> is what
  is cut off and \<open>half\<close> the weight of its first bit. A shorter significand is
  padded with zeros.
\<close>

definition rnd :: "int \<Rightarrow> int \<Rightarrow> double" where
  "rnd m e =
     (if m = 0 then Dbl 0 0
      else let a = \<bar>m\<bar>; n = bit_length a
           in if 53 < n
              then let k = nat (n - 53);
                       q = a div 2 ^ k;
                       r = a mod 2 ^ k;
                       half = 2 ^ (k - 1);
                       q = (if half < r \<or> (r = half \<and> odd q) then q + 1 else q)
                   in if q = 2 ^ 53 then Dbl (sgn m * 2 ^ 52) (e + int k + 1)
                      else Dbl (sgn m * q) (e + int k)
              else let k = nat (53 - n) in Dbl (m * 2 ^ k) (e - int k))"

text \<open>
  The operations of binary64: the exact result, rounded. A quotient is formed with
  three bits beyond the 53 and a sticky bit for the remainder, which decides the
  rounding as the exact quotient would. A division by zero, an infinity or a NaN in
  C++, does not occur below and is given the value zero.
\<close>

fun dadd :: "double \<Rightarrow> double \<Rightarrow> double" where
  "dadd (Dbl m1 e1) (Dbl m2 e2) =
     (let e = min e1 e2 in rnd (m1 * 2 ^ nat (e1 - e) + m2 * 2 ^ nat (e2 - e)) e)"

fun dneg :: "double \<Rightarrow> double" where
  "dneg (Dbl m e) = Dbl (- m) e"

fun dmul :: "double \<Rightarrow> double \<Rightarrow> double" where
  "dmul (Dbl m1 e1) (Dbl m2 e2) = rnd (m1 * m2) (e1 + e2)"

fun ddiv :: "double \<Rightarrow> double \<Rightarrow> double" where
  "ddiv (Dbl m1 e1) (Dbl m2 e2) =
     (if m1 = 0 \<or> m2 = 0 then Dbl 0 0
      else let q = (\<bar>m1\<bar> * 2 ^ 56) div \<bar>m2\<bar>;
               r = (\<bar>m1\<bar> * 2 ^ 56) mod \<bar>m2\<bar>;
               sticky = (if r = 0 then 0 else 1)
           in rnd (sgn m1 * sgn m2 * (2 * q + sticky)) (e1 - e2 - 57))"

fun dabs :: "double \<Rightarrow> double" where
  "dabs (Dbl m e) = Dbl \<bar>m\<bar> e"

fun dle :: "double \<Rightarrow> double \<Rightarrow> bool" where
  "dle (Dbl m1 e1) (Dbl m2 e2) =
     (let e = min e1 e2 in m1 * 2 ^ nat (e1 - e) \<le> m2 * 2 ^ nat (e2 - e))"

text \<open>
  With these the kernels can be written for \<open>double\<close> with the operators of the
  source. The classes are the syntactic ones: no law of arithmetic is assumed.
\<close>

instantiation double :: "{zero, one, plus, minus, uminus, times, inverse, abs, ord}"
begin

definition zero_double :: double where "zero_double = Dbl 0 0"
definition one_double :: double where "one_double = rnd 1 0"
definition plus_double :: "double \<Rightarrow> double \<Rightarrow> double" where "plus_double = dadd"
definition uminus_double :: "double \<Rightarrow> double" where "uminus_double = dneg"
definition minus_double :: "double \<Rightarrow> double \<Rightarrow> double" where "minus_double x y = dadd x (dneg y)"
definition times_double :: "double \<Rightarrow> double \<Rightarrow> double" where "times_double = dmul"
definition divide_double :: "double \<Rightarrow> double \<Rightarrow> double" where "divide_double = ddiv"
definition inverse_double :: "double \<Rightarrow> double" where "inverse_double x = ddiv (rnd 1 0) x"
definition abs_double :: "double \<Rightarrow> double" where "abs_double = dabs"
definition less_eq_double :: "double \<Rightarrow> double \<Rightarrow> bool" where "less_eq_double = dle"
definition less_double :: "double \<Rightarrow> double \<Rightarrow> bool" where
  "less_double x y = (dle x y \<and> \<not> dle y x)"

instance ..

end

subsection \<open>The kernels over an arbitrary scalar type\<close>

text \<open>
  The consistent mass and the deformation gradient once more, with the text of the
  definitions above and any scalar type in the place of \<^typ>\<open>real\<close>. As in C++,
  a product or a sum without parentheses is evaluated from the left, and every
  operation is rounded on its own (no fused multiply-add).
\<close>

type_synonym 'a vec3p = "'a \<times> 'a \<times> 'a"
type_synonym 'a mat3p = "'a vec3p \<times> 'a vec3p \<times> 'a vec3p"

text \<open>The tables of \<^verbatim>\<open>HexElement\<close> that the two kernels read.\<close>

record 'a HexTables =
  tab_int_wts :: "'a list"
  tab_shape_fcn_vals :: "'a list"
  tab_shape_fcn_deriv :: "'a list"

fun accumulate_poly :: "'a::{plus,times} mat3p \<Rightarrow> 'a vec3p \<Rightarrow> 'a vec3p \<Rightarrow> 'a mat3p" where
  "accumulate_poly ((a00, a01, a02), (a10, a11, a12), (a20, a21, a22)) (c1, c2, c3) (sfd1, sfd2, sfd3) =
     ((a00 + c1 * sfd1, a01 + c1 * sfd2, a02 + c1 * sfd3),
      (a10 + c2 * sfd1, a11 + c2 * sfd2, a12 + c2 * sfd3),
      (a20 + c3 * sfd1, a21 + c3 * sfd2, a22 + c3 * sfd3))"

definition sfd_poly :: "'a HexTables \<Rightarrow> nat \<Rightarrow> nat \<Rightarrow> 'a vec3p" where
  "sfd_poly el int_pt n =
     (tab_shape_fcn_deriv el ! (24 * int_pt + dim * n),
      tab_shape_fcn_deriv el ! (24 * int_pt + dim * n + 1),
      tab_shape_fcn_deriv el ! (24 * int_pt + dim * n + 2))"

definition jacobian_poly :: "'a::{zero,plus,times} HexTables \<Rightarrow> (nat \<Rightarrow> nat \<Rightarrow> 'a) \<Rightarrow> nat \<Rightarrow> 'a mat3p" where
  "jacobian_poly el coords int_pt =
     fold (\<lambda>n a. accumulate_poly a (coords n 0, coords n 1, coords n 2) (sfd_poly el int_pt n))
       [0..<num_nodes] ((0, 0, 0), (0, 0, 0), (0, 0, 0))"

text \<open>
  Modelled from the spec: \<^verbatim>\<open>Invert3x3\<close> as above (section 4.3), the adjugate
  divided by the determinant entry by entry.
\<close>

fun det3_poly :: "'a::{plus,minus,times} mat3p \<Rightarrow> 'a" where
  "det3_poly ((m00, m01, m02), (m10, m11, m12), (m20, m21, m22)) =
     m00 * (m11 * m22 - m12 * m21) - m01 * (m10 * m22 - m12 * m20)
       + m02 * (m10 * m21 - m11 * m20)"

fun adjugate_poly :: "'a::{minus,times} mat3p \<Rightarrow> 'a mat3p" where
  "adjugate_poly ((m00, m01, m02), (m10, m11, m12), (m20, m21, m22)) =
     ((m11 * m22 - m12 * m21, m02 * m21 - m01 * m22, m01 * m12 - m02 * m11),
      (m12 * m20 - m10 * m22, m00 * m22 - m02 * m20, m02 * m10 - m00 * m12),
      (m10 * m21 - m11 * m20, m01 * m20 - m00 * m21, m00 * m11 - m01 * m10))"

fun divide3 :: "'a::inverse mat3p \<Rightarrow> 'a \<Rightarrow> 'a mat3p" where
  "divide3 ((m00, m01, m02), (m10, m11, m12), (m20, m21, m22)) d =
     ((m00 / d, m01 / d, m02 / d), (m10 / d, m11 / d, m12 / d), (m20 / d, m21 / d, m22 / d))"

definition Invert3x3_poly ::
  "'a::{plus,minus,times,inverse,abs,ord} \<Rightarrow> 'a mat3p \<Rightarrow> error + ('a mat3p \<times> 'a)" where
  "Invert3x3_poly tol mat =
     (let det = det3_poly mat
      in if \<bar>det\<bar> \<le> tol then Inl DegenerateGeometry
         else Inr (divide3 (adjugate_poly mat) det, det))"

definition mass_entry_poly ::
  "'a::{zero,plus,times} HexTables \<Rightarrow> 'a \<Rightarrow> (nat \<Rightarrow> 'a) \<Rightarrow> nat \<Rightarrow> nat \<Rightarrow> 'a" where
  "mass_entry_poly el density jac_det i j =
     fold (\<lambda>int_pt m. m + tab_int_wts el ! int_pt * density
                            * tab_shape_fcn_vals el ! (int_pt * num_nodes + i)
                            * tab_shape_fcn_vals el ! (int_pt * num_nodes + j) * jac_det int_pt)
       [0..<num_int_pts] 0"

definition ComputeConsistentMass_impl_poly ::
  "('a::{zero,plus,times} mat3p \<Rightarrow> error + ('a mat3p \<times> 'a)) \<Rightarrow> 'a HexTables \<Rightarrow> 'a
     \<Rightarrow> (nat \<Rightarrow> nat \<Rightarrow> 'a) \<Rightarrow> (nat \<Rightarrow> nat \<Rightarrow> 'a) \<Rightarrow> error + (nat \<Rightarrow> nat \<Rightarrow> 'a)" where
  "ComputeConsistentMass_impl_poly inv3x3 el density node_reference_coords consistent_mass_matrix =
     (case for_loop [0..<num_int_pts]
             (\<lambda>int_pt jac_det.
                case inv3x3 (jacobian_poly el node_reference_coords int_pt) of
                  Inl e \<Rightarrow> Inl e
                | Inr (a_inv, det) \<Rightarrow> Inr (jac_det(int_pt := det)))
             (\<lambda>_. 0) of
        Inl e \<Rightarrow> Inl e
      | Inr jac_det \<Rightarrow>
          Inr (fold (\<lambda>i M. M(i := fold (\<lambda>j row. row(j := mass_entry_poly el density jac_det i j))
                                     [0..<num_nodes] (M i)))
                 [0..<num_nodes] consistent_mass_matrix))"

fun mat_mul_poly :: "'a::{plus,times} mat3p \<Rightarrow> 'a mat3p \<Rightarrow> 'a mat3p" where
  "mat_mul_poly ((a00, a01, a02), (a10, a11, a12), (a20, a21, a22))
           ((b00, b01, b02), (b10, b11, b12), (b20, b21, b22)) =
     ((a00 * b00 + a01 * b10 + a02 * b20, a00 * b01 + a01 * b11 + a02 * b21, a00 * b02 + a01 * b12 + a02 * b22),
      (a10 * b00 + a11 * b10 + a12 * b20, a10 * b01 + a11 * b11 + a12 * b21, a10 * b02 + a11 * b12 + a12 * b22),
      (a20 * b00 + a21 * b10 + a22 * b20, a20 * b01 + a21 * b11 + a22 * b21, a20 * b02 + a21 * b12 + a22 * b22))"

fun store_def_grad_poly :: "'a mat3p \<Rightarrow> (nat \<Rightarrow> 'a) \<Rightarrow> (nat \<Rightarrow> 'a)" where
  "store_def_grad_poly ((f00, f01, f02), (f10, f11, f12), (f20, f21, f22)) row =
     row(K_F_XX := f00, K_F_XY := f01, K_F_XZ := f02,
         K_F_YX := f10, K_F_YY := f11, K_F_YZ := f12,
         K_F_ZX := f20, K_F_ZY := f21, K_F_ZZ := f22)"

definition ComputeDeformationGradients_impl_poly ::
  "('a::{zero,plus,times} mat3p \<Rightarrow> error + ('a mat3p \<times> 'a)) \<Rightarrow> 'a HexTables
     \<Rightarrow> (nat \<Rightarrow> nat \<Rightarrow> 'a) \<Rightarrow> (nat \<Rightarrow> nat \<Rightarrow> 'a) \<Rightarrow> (nat \<Rightarrow> nat \<Rightarrow> 'a) \<Rightarrow> error + (nat \<Rightarrow> nat \<Rightarrow> 'a)" where
  "ComputeDeformationGradients_impl_poly inv3x3 el node_reference_coords node_displacements
       deformation_gradients =
     for_loop [0..<8]
       (\<lambda>int_pt dg.
          case fold (\<lambda>j (a, b).
                       (accumulate_poly a
                          (node_reference_coords j 0 + node_displacements j 0,
                           node_reference_coords j 1 + node_displacements j 1,
                           node_reference_coords j 2 + node_displacements j 2)
                          (sfd_poly el int_pt j),
                        accumulate_poly b
                          (node_reference_coords j 0, node_reference_coords j 1, node_reference_coords j 2)
                          (sfd_poly el int_pt j)))
                 [0..<8] (((0, 0, 0), (0, 0, 0), (0, 0, 0)), ((0, 0, 0), (0, 0, 0), (0, 0, 0))) of
            (a, b) \<Rightarrow>
              (case inv3x3 b of
                 Inl e \<Rightarrow> Inl e
               | Inr (b_inv, _) \<Rightarrow> Inr (dg(int_pt := store_def_grad_poly (mat_mul_poly a b_inv) (dg int_pt)))))
       deformation_gradients"

text \<open>
  Modelled from the spec: the constructor and its table builders as above
  (section 4.2). The constant eight and the Gauss coordinate are arguments, since a
  scalar type without laws has no numerals.
\<close>

fun ShapeFunctionValues_poly :: "'a::{one,plus,minus,times,inverse} \<Rightarrow> 'a list \<Rightarrow> 'a list" where
  "ShapeFunctionValues_poly eight (r # s # t # natural_coords) =
     [(1 - r) * (1 - s) * (1 - t) / eight,
      (1 + r) * (1 - s) * (1 - t) / eight,
      (1 + r) * (1 + s) * (1 - t) / eight,
      (1 - r) * (1 + s) * (1 - t) / eight,
      (1 - r) * (1 - s) * (1 + t) / eight,
      (1 + r) * (1 - s) * (1 + t) / eight,
      (1 + r) * (1 + s) * (1 + t) / eight,
      (1 - r) * (1 + s) * (1 + t) / eight] @ ShapeFunctionValues_poly eight natural_coords"
| "ShapeFunctionValues_poly eight _ = []"

fun ShapeFunctionDerivatives_poly :: "'a::{one,plus,minus,uminus,times,inverse} \<Rightarrow> 'a list \<Rightarrow> 'a list" where
  "ShapeFunctionDerivatives_poly eight (r # s # t # natural_coords) =
     [- (1 - s) * (1 - t) / eight, - (1 - r) * (1 - t) / eight, - (1 - r) * (1 - s) / eight,
      (1 - s) * (1 - t) / eight, - (1 + r) * (1 - t) / eight, - (1 + r) * (1 - s) / eight,
      (1 + s) * (1 - t) / eight, (1 + r) * (1 - t) / eight, - (1 + r) * (1 + s) / eight,
      - (1 + s) * (1 - t) / eight, (1 - r) * (1 - t) / eight, - (1 - r) * (1 + s) / eight,
      - (1 - s) * (1 + t) / eight, - (1 - r) * (1 + t) / eight, (1 - r) * (1 - s) / eight,
      (1 - s) * (1 + t) / eight, - (1 + r) * (1 + t) / eight, (1 + r) * (1 - s) / eight,
      (1 + s) * (1 + t) / eight, (1 + r) * (1 + t) / eight, (1 + r) * (1 + s) / eight,
      - (1 + s) * (1 + t) / eight, (1 - r) * (1 + t) / eight, (1 - r) * (1 + s) / eight]
     @ ShapeFunctionDerivatives_poly eight natural_coords"
| "ShapeFunctionDerivatives_poly eight _ = []"

definition gauss_points_poly :: "'a::uminus \<Rightarrow> 'a list" where
  "gauss_points_poly g =
      [- g, - g, - g,   g, - g, - g,   g, g, - g,   - g, g, - g,
       - g, - g, g,     g, - g, g,     g, g, g,     - g, g, g]"

definition new_HexElement_poly :: "'a::{one,plus,minus,uminus,times,inverse} \<Rightarrow> 'a \<Rightarrow> 'a HexTables" where
  "new_HexElement_poly eight g =
     \<lparr> tab_int_wts = replicate num_int_pts 1,
       tab_shape_fcn_vals = ShapeFunctionValues_poly eight (gauss_points_poly g),
       tab_shape_fcn_deriv = ShapeFunctionDerivatives_poly eight (gauss_points_poly g) \<rparr>"

subsection \<open>The element and the unit cube in binary64\<close>


text \<open>
  Modelled from the spec: the Gauss coordinate \<open>1 / sqrt 3\<close> of section 4.2 in
  binary64, as the expression \<^verbatim>\<open>1.0 / sqrt(3.0)\<close> gives it: the quotient of one
  by the binary64 number nearest to \<open>sqrt 3\<close>.
\<close>

definition double_sqrt3 :: double where
  "double_sqrt3 = Dbl 7800463371553962 (- 52)"



text \<open>The tables of an element of the exact reading.\<close>

definition tables_of :: "HexElement \<Rightarrow> real HexTables" where
  "tables_of el =
     \<lparr> tab_int_wts = int_wts el,
       tab_shape_fcn_vals = shape_fcn_vals el,
       tab_shape_fcn_deriv = shape_fcn_deriv el \<rparr>"






section \<open>Properties\<close>

subsection \<open>Counted loops\<close>

lemma less_8_cases:
  "(p::nat) < 8 \<longleftrightarrow> p = 0 \<or> p = 1 \<or> p = 2 \<or> p = 3 \<or> p = 4 \<or> p = 5 \<or> p = 6 \<or> p = 7"
  by arith

lemma all_less_8:
  "(\<forall>p<8. P (p::nat)) = (P 0 \<and> P 1 \<and> P 2 \<and> P 3 \<and> P 4 \<and> P 5 \<and> P 6 \<and> P 7)"
  unfolding less_8_cases by blast

lemma upt8: "[0..<8] = [0, 1, 2, 3, 4, 5, 6, 7::nat]"
  by code_simp

lemma for_loop_ok:
  "(\<And>i s. i \<in> set is \<Longrightarrow> body i s = Inr (g i s)) \<Longrightarrow> for_loop is body s = Inr (fold g is s)"
  by (induction "is" arbitrary: s) simp_all

lemma for_loop_fails:
  "i \<in> set is \<Longrightarrow> (\<And>s. body i s = Inl e) \<Longrightarrow> (\<And>j s e'. body j s = Inl e' \<Longrightarrow> e' = e)
     \<Longrightarrow> for_loop is body s = Inl e"
proof (induction "is" arbitrary: s)
  case Nil
  then show ?case by simp
next
  case (Cons j js)
  show ?case
  proof (cases "body j s")
    case (Inl e')
    with Cons.prems(3) have "e' = e" by blast
    with Inl show ?thesis by simp
  next
    case (Inr s')
    with Cons.prems(1,2) have "i \<in> set js" by auto
    with Cons.IH Cons.prems(2,3) have "for_loop js body s' = Inl e" by blast
    with Inr show ?thesis by simp
  qed
qed

lemma fold_upd_indep:
  "fold (\<lambda>i f. f(i := g i)) xs f0 = (\<lambda>i. if i \<in> set xs then g i else f0 i)"
  by (induction xs arbitrary: f0) auto

lemma fold_upd_dep:
  "distinct xs \<Longrightarrow>
     fold (\<lambda>i f. f(i := g i (f i))) xs f0 = (\<lambda>i. if i \<in> set xs then g i (f0 i) else f0 i)"
  by (induction xs arbitrary: f0) auto

lemma fold_add:
  "fold (\<lambda>p (m::real). m + f p) ps a = a + sum_list (map f ps)"
  by (induction ps arbitrary: a) simp_all

lemma sum_list_upt8: "sum_list (map f [0..<8]) = (\<Sum>p<8. (f p :: real))"
  by (simp add: interv_sum_list_conv_sum_set_nat atLeast0LessThan)

lemma inverter_loop_ok:
  assumes "\<forall>p<8. \<exists>r. R p = Inr r"
  shows "for_loop [0..<8]
           (\<lambda>int_pt jac_det. case R int_pt of Inl e \<Rightarrow> Inl e
                             | Inr (a_inv, det) \<Rightarrow> Inr (h int_pt a_inv det jac_det)) s
         = Inr (fold (\<lambda>p. h p (fst (projr (R p))) (snd (projr (R p)))) [0..<8] s)"
proof (rule for_loop_ok)
  fix i s assume "i \<in> set [0..<8]"
  then have "i < 8" by simp
  with assms obtain r where "R i = Inr r" by blast
  then show "(case R i of Inl e \<Rightarrow> Inl e | Inr (a_inv, det) \<Rightarrow> Inr (h i a_inv det s))
        = Inr (h i (fst (projr (R i))) (snd (projr (R i))) s)"
    by (cases r) simp
qed


lemma less_3_cases: "(k::nat) < 3 \<longleftrightarrow> k = 0 \<or> k = 1 \<or> k = 2"
  by arith

lemma fold_unchanged:
  "(\<And>x s. x \<in> set xs \<Longrightarrow> f x s = s) \<Longrightarrow> fold f xs s = s"
  by (induction xs arbitrary: s) simp_all

subsection \<open>The inversion of section 4.3\<close>

lemma Invert3x3_ok:
  "tol < \<bar>det3 m\<bar> \<Longrightarrow> Invert3x3 tol m = Inr (scale3 (1 / det3 m) (adjugate m), det3 m)"
  by (simp add: Invert3x3_def Let_def)

lemma Invert3x3_degenerate:
  "\<bar>det3 m\<bar> \<le> tol \<Longrightarrow> Invert3x3 tol m = Inl DegenerateGeometry"
  by (simp add: Invert3x3_def)


subsection \<open>The unit cube\<close>

lemma unit_cube_jacobian:
  "\<forall>p<8. jacobian new_HexElement unit_cube p = ((1 / 2, 0, 0), (0, 1 / 2, 0), (0, 0, 1 / 2))"
  unfolding all_less_8
  by (simp add: jacobian_def new_HexElement_def gauss_points_def Let_def num_nodes_def upt8
      sfd_def dim_def coords_of_def unit_cube_def zero3_def field_simps)

lemma unit_cube_Invert3x3:
  "\<forall>p<8. Invert3x3 0 (jacobian new_HexElement unit_cube p)
          = Inr (((2, 0, 0), (0, 2, 0), (0, 0, 2)), 1 / 8)"
  by (simp add: unit_cube_jacobian Invert3x3_def)

lemma unit_cube_current: "current_coords unit_cube (\<lambda>_ _. 0) = unit_cube"
  by (simp add: current_coords_def)

lemma unit_cube_nondegenerate:
  "\<forall>p<8. 0 < \<bar>det3 (jacobian new_HexElement unit_cube p)\<bar>"
proof (intro allI impI)
  fix p :: nat assume "p < 8"
  with unit_cube_jacobian
  have "jacobian new_HexElement unit_cube p = ((1 / 2, 0, 0), (0, 1 / 2, 0), (0, 0, 1 / 2))"
    by blast
  then show "0 < \<bar>det3 (jacobian new_HexElement unit_cube p)\<bar>"
    by simp
qed

subsection \<open>Symmetry of the consistent mass matrix\<close>

lemma mass_entry_sum:
  "mass_entry el density jac_det i j =
     (\<Sum>p<8. int_wts el ! p * density * shape_fcn_vals el ! (p * 8 + i)
               * shape_fcn_vals el ! (p * 8 + j) * jac_det p)"
  by (simp add: mass_entry_def fold_add num_int_pts_def num_nodes_def sum_list_upt8)


lemma consistent_mass_rows:
  "fold (\<lambda>i M. M(i := fold (\<lambda>j row. row(j := e i j)) [0..<8] (M i))) [0..<8] M0
     = (\<lambda>i. if i < 8 then (\<lambda>j. if j < 8 then e i j else M0 i j) else M0 i)"
proof -
  have row: "fold (\<lambda>j row. row(j := e i j)) [0..<8] r = (\<lambda>j. if j < 8 then e i j else r j)" for i r
    by (simp add: fold_upd_indep)
  show ?thesis
    unfolding row
    by (subst fold_upd_dep[where g = "\<lambda>i r. (\<lambda>j. if j < 8 then e i j else r j)"]) auto
qed



subsection \<open>Nodal forces\<close>

lemma write_forces_entries:
  "write_forces force node_forces =
     (\<lambda>node. if node < 8
              then (node_forces node)(0 := force node 0, 1 := force node 1, 2 := force node 2)
              else node_forces node)"
  unfolding write_forces_def num_nodes_def
  by (subst fold_upd_dep[where g = "\<lambda>node r. r(0 := force node 0, 1 := force node 1, 2 := force node 2)"])
     auto

lemma write_forces_at:
  "node < 8 \<Longrightarrow> k < 3 \<Longrightarrow> write_forces force node_forces node k = force node k"
  by (auto simp: write_forces_entries less_3_cases)

lemma nodal_forces_Inr:
  "ComputeNodalForces_impl inv3x3 el rc disp S nf = Inr out \<Longrightarrow>
     \<exists>force. for_loop [0..<num_int_pts]
               (\<lambda>int_pt force.
                  case inv3x3 (jacobian el (current_coords rc disp) int_pt) of
                    Inl e \<Rightarrow> Inl e
                  | Inr (a_inv, jac_det) \<Rightarrow>
                      Inr (fold (node_force_step el S int_pt a_inv jac_det) [0..<num_nodes] force))
               (\<lambda>_ _. 0) = Inr force
            \<and> out = write_forces force nf"
  by (auto simp: ComputeNodalForces_impl_def split: sum.splits)

lemma nodal_forces_total:
  assumes ok: "\<forall>p<8. \<exists>r. inv3x3 (jacobian el (current_coords rc disp) p) = Inr r"
  shows "\<exists>out. ComputeNodalForces_impl inv3x3 el rc disp S nf = Inr out"
  unfolding ComputeNodalForces_impl_def num_int_pts_def
  by (subst inverter_loop_ok[where R = "\<lambda>p. inv3x3 (jacobian el (current_coords rc disp) p)"
        and h = "\<lambda>p a_inv jac_det. fold (node_force_step el S p a_inv jac_det) [0..<num_nodes]",
        OF ok]) simp

text \<open>
  Claim C10. \<^verbatim>\<open>ComputeNodalForces_impl\<close> assigns every entry of the output view
  and never accumulates into it: two runs on the same coordinates, displacements and
  stresses, started with arbitrarily different contents of \<open>node_forces\<close>, fail
  alike or leave the same value in each of the three force components of each of the
  eight nodes. This holds whatever \<^verbatim>\<open>Invert3x3\<close> computes.
\<close>

theorem nodal_forces_overwrite:
  "(ComputeNodalForces_impl inv3x3 el rc disp S nf0 = Inl e
      \<longleftrightarrow> ComputeNodalForces_impl inv3x3 el rc disp S nf1 = Inl e)
   \<and> (ComputeNodalForces_impl inv3x3 el rc disp S nf0 = Inr out0
      \<longrightarrow> ComputeNodalForces_impl inv3x3 el rc disp S nf1 = Inr out1
      \<longrightarrow> (\<forall>node<8. \<forall>k<3. out0 node k = out1 node k))"
proof (intro conjI impI allI)
  show "ComputeNodalForces_impl inv3x3 el rc disp S nf0 = Inl e
      \<longleftrightarrow> ComputeNodalForces_impl inv3x3 el rc disp S nf1 = Inl e"
    by (simp add: ComputeNodalForces_impl_def split: sum.splits)
next
  fix node k :: nat
  assume r0: "ComputeNodalForces_impl inv3x3 el rc disp S nf0 = Inr out0"
    and r1: "ComputeNodalForces_impl inv3x3 el rc disp S nf1 = Inr out1"
    and n: "node < 8" and k: "k < 3"
  from nodal_forces_Inr[OF r0] nodal_forces_Inr[OF r1]
  obtain force where "out0 = write_forces force nf0" "out1 = write_forces force nf1"
    by auto
  with n k show "out0 node k = out1 node k"
    by (simp add: write_forces_at)
qed

theorem nodal_forces_overwrite_witness:
  "\<exists>out0 out1.
     ComputeNodalForces_impl (Invert3x3 0) new_HexElement unit_cube (\<lambda>_ _. 0) (\<lambda>_ _. 1)
       (\<lambda>_ _. 0) = Inr out0
     \<and> ComputeNodalForces_impl (Invert3x3 0) new_HexElement unit_cube (\<lambda>_ _. 0) (\<lambda>_ _. 1)
       (\<lambda>_ _. 5) = Inr out1
     \<and> out0 2 1 = out1 2 1"
proof -
  have ok: "\<forall>p<8. \<exists>r. Invert3x3 0 (jacobian new_HexElement (current_coords unit_cube (\<lambda>_ _. 0)) p) = Inr r"
    unfolding unit_cube_current using unit_cube_Invert3x3 by blast
  from nodal_forces_total[OF ok] obtain out0 out1 where
    r0: "ComputeNodalForces_impl (Invert3x3 0) new_HexElement unit_cube (\<lambda>_ _. 0) (\<lambda>_ _. 1)
           (\<lambda>_ _. 0) = Inr out0"
    and r1: "ComputeNodalForces_impl (Invert3x3 0) new_HexElement unit_cube (\<lambda>_ _. 0) (\<lambda>_ _. 1)
           (\<lambda>_ _. 5) = Inr out1"
    by blast
  from nodal_forces_overwrite[of "Invert3x3 0" new_HexElement unit_cube "\<lambda>_ _. 0" "\<lambda>_ _. 1"
      "\<lambda>_ _. 0" DegenerateGeometry "\<lambda>_ _. 5" out0 out1] r0 r1
  have "out0 2 1 = out1 2 1" by simp
  with r0 r1 show ?thesis by blast
qed

lemma node_force_step_zero_stress:
  assumes "\<forall>c<6. S p c = 0"
  shows "node_force_step el S p a_inv jac_det node force = force"
proof (cases a_inv rule: det3.cases)
  case (1 i00 i01 i02 i10 i11 i12 i20 i21 i22)
  obtain d1 d2 d3 where d: "sfd el p node = (d1, d2, d3)"
    by (cases "sfd el p node") auto
  from assms have "S p K_S_XX = 0" "S p K_S_YY = 0" "S p K_S_ZZ = 0"
    "S p K_S_XY = 0" "S p K_S_YZ = 0" "S p K_S_ZX = 0"
    "S p K_S_YX = 0" "S p K_S_ZY = 0" "S p K_S_XZ = 0"
    by (simp_all add: K_S_XX_def K_S_YY_def K_S_ZZ_def K_S_XY_def K_S_YZ_def K_S_ZX_def
        K_S_YX_def K_S_ZY_def K_S_XZ_def)
  with 1 d show ?thesis
    by (simp add: fun_eq_iff)
qed

lemma nodal_forces_zero_stress_loop:
  assumes ok: "\<forall>p<8. \<exists>r. inv3x3 (J p) = Inr r"
    and zero: "\<forall>p<8. \<forall>c<6. S p c = 0"
  shows "for_loop [0..<8]
           (\<lambda>int_pt force.
              case inv3x3 (J int_pt) of
                Inl e \<Rightarrow> Inl e
              | Inr (a_inv, jac_det) \<Rightarrow>
                  Inr (fold (node_force_step el S int_pt a_inv jac_det) [0..<8] force))
           force0 = Inr force0"
proof -
  have "for_loop [0..<8]
           (\<lambda>int_pt force.
              case inv3x3 (J int_pt) of
                Inl e \<Rightarrow> Inl e
              | Inr (a_inv, jac_det) \<Rightarrow>
                  Inr (fold (node_force_step el S int_pt a_inv jac_det) [0..<8] force))
           force0 = Inr (fold (\<lambda>p s. s) [0..<8] force0)"
  proof (rule for_loop_ok)
    fix i s assume "i \<in> set [0..<8]"
    then have i: "i < 8" by simp
    with ok obtain a_inv d where r: "inv3x3 (J i) = Inr (a_inv, d)" by fastforce
    from zero i have "\<forall>c<6. S i c = 0" by blast
    then have "fold (node_force_step el S i a_inv d) [0..<8] s = s"
      by (intro fold_unchanged node_force_step_zero_stress)
    with r show "(case inv3x3 (J i) of Inl e \<Rightarrow> Inl e
         | Inr (a_inv, jac_det) \<Rightarrow> Inr (fold (node_force_step el S i a_inv jac_det) [0..<8] s))
        = Inr s"
      by simp
  qed
  then show ?thesis by (simp add: fold_unchanged)
qed

text \<open>
  Claim C5. When the Jacobian of every integration point is non-degenerate (its
  determinant exceeds the threshold of the inversion in magnitude) and every stress
  component of every integration point is zero, \<^verbatim>\<open>ComputeNodalForces_impl\<close>
  returns, and all three force components of all eight nodes are exactly zero.
\<close>

theorem nodal_forces_zero_stress:
  assumes nondeg: "\<forall>p<8. tol < \<bar>det3 (jacobian el (current_coords rc disp) p)\<bar>"
    and zero: "\<forall>p<8. \<forall>c<6. S p c = 0"
  shows "\<exists>out. ComputeNodalForces_impl (Invert3x3 tol) el rc disp S nf = Inr out
           \<and> (\<forall>node<8. \<forall>k<3. out node k = 0)"
proof -
  from nondeg have ok: "\<forall>p<8. \<exists>r. Invert3x3 tol (jacobian el (current_coords rc disp) p) = Inr r"
    using Invert3x3_ok by blast
  have "ComputeNodalForces_impl (Invert3x3 tol) el rc disp S nf = Inr (write_forces (\<lambda>_ _. 0) nf)"
    unfolding ComputeNodalForces_impl_def num_int_pts_def num_nodes_def
    by (subst nodal_forces_zero_stress_loop[where J = "jacobian el (current_coords rc disp)", OF ok zero]) simp
  then show ?thesis
    by (simp add: write_forces_at)
qed

theorem nodal_forces_zero_stress_witness:
  "\<exists>out. ComputeNodalForces_impl (Invert3x3 0) new_HexElement unit_cube (\<lambda>_ _. 0) (\<lambda>_ _. 0)
           (\<lambda>_ _. 7) = Inr out
        \<and> out 3 1 = 0"
proof -
  have nondeg: "\<forall>p<8. 0 < \<bar>det3 (jacobian new_HexElement (current_coords unit_cube (\<lambda>_ _. 0)) p)\<bar>"
    unfolding unit_cube_current by (rule unit_cube_nondegenerate)
  have zero: "\<forall>p<8. \<forall>c<6. (\<lambda>_ _. 0 :: real) (p::nat) (c::nat) = 0"
    by simp
  from nodal_forces_zero_stress[OF nondeg zero, of "\<lambda>_ _. 7"] show ?thesis
    by fastforce
qed

subsection \<open>Deformation gradients\<close>

lemma fold_pair_jacobian:
  "fold (\<lambda>j (a, b). (accumulate a (coords_of cc j) (sfd el p j),
                      accumulate b (coords_of rc j) (sfd el p j))) ns (a0, b0)
   = (fold (\<lambda>n a. accumulate a (coords_of cc n) (sfd el p n)) ns a0,
      fold (\<lambda>n a. accumulate a (coords_of rc n) (sfd el p n)) ns b0)"
  by (induction ns arbitrary: a0 b0) simp_all

lemma accumulate_scale:
  assumes "\<forall>k<3. c1 n k = s * c2 n k"
  shows "accumulate (scale3 s m) (coords_of c1 n) d = scale3 s (accumulate m (coords_of c2 n) d)"
proof (cases m rule: det3.cases)
  case (1 m00 m01 m02 m10 m11 m12 m20 m21 m22)
  obtain d1 d2 d3 where d: "d = (d1, d2, d3)" by (cases d) auto
  from assms have "c1 n 0 = s * c2 n 0" "c1 n 1 = s * c2 n 1" "c1 n 2 = s * c2 n 2"
    by simp_all
  with 1 d show ?thesis
    by (simp add: coords_of_def algebra_simps)
qed

lemma fold_accumulate_scale:
  assumes "\<forall>n\<in>set ns. \<forall>k<3. c1 n k = s * c2 n k"
  shows "fold (\<lambda>n a. accumulate a (coords_of c1 n) (sfd el p n)) ns (scale3 s m)
         = scale3 s (fold (\<lambda>n a. accumulate a (coords_of c2 n) (sfd el p n)) ns m)"
  using assms
proof (induction ns arbitrary: m)
  case Nil
  show ?case by simp
next
  case (Cons n ns)
  from Cons.prems have "\<forall>k<3. c1 n k = s * c2 n k" by simp
  then have "accumulate (scale3 s m) (coords_of c1 n) (sfd el p n)
             = scale3 s (accumulate m (coords_of c2 n) (sfd el p n))"
    by (rule accumulate_scale)
  with Cons show ?case by simp
qed

lemma jacobian_scale:
  assumes "\<forall>n<8. \<forall>k<3. c1 n k = s * c2 n k"
  shows "jacobian el c1 p = scale3 s (jacobian el c2 p)"
proof -
  have z: "zero3 = scale3 s zero3" by (simp add: zero3_def)
  have "fold (\<lambda>n a. accumulate a (coords_of c1 n) (sfd el p n)) [0..<8] (scale3 s zero3)
        = scale3 s (fold (\<lambda>n a. accumulate a (coords_of c2 n) (sfd el p n)) [0..<8] zero3)"
    using assms by (intro fold_accumulate_scale) simp
  then show ?thesis
    unfolding jacobian_def num_nodes_def using z by simp
qed










subsection \<open>Volume averages\<close>

lemma fold_vec_add_length:
  "length (fold (\<lambda>i va. va[i := va ! i + f i]) is (va::real list)) = length va"
  by (induction "is" arbitrary: va) simp_all

lemma fold_vec_add_nth:
  "i < length va \<Longrightarrow>
     fold (\<lambda>i va. va[i := va ! i + f i]) [0..<k] (va::real list) ! i
       = (if i < k then va ! i + f i else va ! i)"
proof (induction k)
  case 0
  show ?case by simp
next
  case (Suc k)
  let ?xs = "fold (\<lambda>i va. va[i := va ! i + f i]) [0..<k] va"
  have len: "length ?xs = length va" by (rule fold_vec_add_length)
  have "fold (\<lambda>i va. va[i := va ! i + f i]) [0..<Suc k] va = ?xs[k := ?xs ! k + f k]"
    by simp
  moreover have "?xs[k := ?xs ! k + f k] ! i = (if i = k then ?xs ! k + f k else ?xs ! i)"
    using Suc.prems len by (simp add: nth_list_update)
  ultimately show ?case
    using Suc by (auto simp: less_Suc_eq)
qed

lemma fold_vol_ave_step:
  "length va = nq \<Longrightarrow>
   (case fold (vol_ave_step el q nq D) ps (va, vol) of
      (va', vol') \<Rightarrow>
        length va' = nq
        \<and> vol' = vol + sum_list (map D ps)
        \<and> (\<forall>i<nq. va' ! i = va ! i + sum_list (map (\<lambda>p. q p i * int_wts el ! p * D p) ps)))"
proof (induction ps arbitrary: va vol)
  case Nil
  then show ?case by simp
next
  case (Cons p ps)
  let ?va = "fold (\<lambda>i va. va[i := va ! i + q p i * int_wts el ! p * D p]) [0..<nq] va"
  have len: "length ?va = nq"
    using Cons.prems by (simp add: fold_vec_add_length)
  have nth: "\<forall>i<nq. ?va ! i = va ! i + q p i * int_wts el ! p * D p"
    using Cons.prems by (simp add: fold_vec_add_nth)
  have "fold (vol_ave_step el q nq D) (p # ps) (va, vol)
        = fold (vol_ave_step el q nq D) ps (?va, vol + D p)"
    by (simp add: vol_ave_step_def)
  with Cons.IH[OF len, of "vol + D p"] nth show ?case
    by (auto simp: algebra_simps)
qed

lemma vol_ave_loop_ok:
  assumes nondeg: "\<forall>p<8. tol < \<bar>det3 (J p)\<bar>"
  shows "for_loop [0..<8]
             (\<lambda>int_pt (vol_ave, volume).
                case Invert3x3 tol (J int_pt) of
                  Inl e \<Rightarrow> Inl e
                | Inr (a_inv, jac_det) \<Rightarrow>
                    Inr (fold (\<lambda>i va. va[i := va ! i + q int_pt i * int_wts el ! int_pt * jac_det])
                           [0..<nq] vol_ave,
                         volume + jac_det))
             s
         = Inr (fold (vol_ave_step el q nq (\<lambda>p. det3 (J p))) [0..<8] s)"
proof (rule for_loop_ok)
  fix i s assume "i \<in> set [0..<8]"
  then have "tol < \<bar>det3 (J i)\<bar>" using nondeg by simp
  then show "(case s of (vol_ave, volume) \<Rightarrow>
                case Invert3x3 tol (J i) of
                  Inl e \<Rightarrow> Inl e
                | Inr (a_inv, jac_det) \<Rightarrow>
                    Inr (fold (\<lambda>ia va. va[ia := va ! ia + q i ia * int_wts el ! i * jac_det])
                           [0..<nq] vol_ave,
                         volume + jac_det))
        = Inr (vol_ave_step el q nq (\<lambda>p. det3 (J p)) i s)"
    by (cases s) (simp add: Invert3x3_ok vol_ave_step_def)
qed

lemma vol_ave_loop_fails:
  assumes "p < 8" "\<bar>det3 (J p)\<bar> \<le> tol"
  shows "for_loop [0..<8]
             (\<lambda>int_pt (vol_ave, volume).
                case Invert3x3 tol (J int_pt) of
                  Inl e \<Rightarrow> Inl e
                | Inr (a_inv, jac_det) \<Rightarrow>
                    Inr (fold (\<lambda>i va. va[i := va ! i + q int_pt i * int_wts el ! int_pt * jac_det])
                           [0..<nq] vol_ave,
                         volume + jac_det))
             s
         = Inl DegenerateGeometry"
proof (rule for_loop_fails[where i = p])
  show "p \<in> set [0..<8]" using assms(1) by simp
next
  fix s :: "real list \<times> real"
  show "(case s of (vol_ave, volume) \<Rightarrow>
                case Invert3x3 tol (J p) of
                  Inl e \<Rightarrow> Inl e
                | Inr (a_inv, jac_det) \<Rightarrow>
                    Inr (fold (\<lambda>i va. va[i := va ! i + q p i * int_wts el ! p * jac_det])
                           [0..<nq] vol_ave,
                         volume + jac_det)) = Inl DegenerateGeometry"
    using assms(2) by (cases s) (simp add: Invert3x3_degenerate)
next
  fix j and s :: "real list \<times> real" and e'
  show "e' = DegenerateGeometry" by (cases e') simp
qed

lemma volume_average_result:
  assumes nondeg: "\<forall>p<8. tol < \<bar>det3 (jacobian el (current_coords rc disp) p)\<bar>"
  shows "\<exists>out. ComputeVolumeAverageQuantities_impl (Invert3x3 tol) el rc disp q out0 nq
           = Inr (\<Sum>p<8. det3 (jacobian el (current_coords rc disp) p), out)
         \<and> (\<forall>i<nq. out i =
               fp_div (\<Sum>p<8. q p i * int_wts el ! p * det3 (jacobian el (current_coords rc disp) p))
                      (\<Sum>p<8. det3 (jacobian el (current_coords rc disp) p)))"
proof -
  let ?D = "\<lambda>p. det3 (jacobian el (current_coords rc disp) p)"
  obtain va vol where f: "fold (vol_ave_step el q nq ?D) [0..<8] (replicate nq 0, 0) = (va, vol)"
    by (cases "fold (vol_ave_step el q nq ?D) [0..<8] (replicate nq 0, 0)") auto
  from fold_vol_ave_step[where va = "replicate nq 0" and nq = nq and el = el and q = q and D = ?D
      and ps = "[0..<8]" and vol = 0] f
  have vol: "vol = (\<Sum>p<8. ?D p)"
    and va: "\<forall>i<nq. va ! i = (\<Sum>p<8. q p i * int_wts el ! p * ?D p)"
    by (simp_all add: sum_list_upt8)
  have "ComputeVolumeAverageQuantities_impl (Invert3x3 tol) el rc disp q out0 nq
        = Inr (vol, fold (\<lambda>i out. out(i := fp_div (va ! i) vol)) [0..<nq] out0)"
    unfolding ComputeVolumeAverageQuantities_impl_def num_int_pts_def
    by (subst vol_ave_loop_ok[where J = "jacobian el (current_coords rc disp)", OF nondeg])
       (simp add: f)
  then show ?thesis
    using vol va by (simp add: fold_upd_indep)
qed

lemma volume_average_degenerate:
  assumes "p < 8" "\<bar>det3 (jacobian el (current_coords rc disp) p)\<bar> \<le> tol"
  shows "ComputeVolumeAverageQuantities_impl (Invert3x3 tol) el rc disp q out0 nq
           = Inl DegenerateGeometry"
  unfolding ComputeVolumeAverageQuantities_impl_def num_int_pts_def
  by (subst vol_ave_loop_fails[where J = "jacobian el (current_coords rc disp)", OF assms]) simp

lemma unit_weights: "p < 8 \<Longrightarrow> int_wts new_HexElement ! p = 1"
  by (simp add: new_HexElement_def num_int_pts_def)

text \<open>
  Claim C4. For every geometry whose current-configuration Jacobians are
  non-degenerate and every integration-point field, the volume that
  \<^verbatim>\<open>ComputeVolumeAverageQuantities_impl\<close> returns is the sum over the eight
  integration points of the quadrature weight times the determinant of the Jacobian
  of the current configuration. The source adds the bare determinant to
  \<^verbatim>\<open>volume\<close>; the two sums agree because the weights of the rule are one.
\<close>

theorem volume_is_weighted_determinant_sum:
  assumes "\<forall>p<8. tol < \<bar>det3 (jacobian new_HexElement (current_coords rc disp) p)\<bar>"
  shows "\<exists>volume out.
           ComputeVolumeAverageQuantities_impl (Invert3x3 tol) new_HexElement rc disp q out0 nq
             = Inr (volume, out)
           \<and> volume = (\<Sum>p<8. int_wts new_HexElement ! p
                                 * det3 (jacobian new_HexElement (current_coords rc disp) p))"
proof -
  from volume_average_result[OF assms, of q out0 nq] obtain out where
    "ComputeVolumeAverageQuantities_impl (Invert3x3 tol) new_HexElement rc disp q out0 nq
       = Inr (\<Sum>p<8. det3 (jacobian new_HexElement (current_coords rc disp) p), out)"
    by blast
  then show ?thesis
    by (simp add: unit_weights)
qed

theorem volume_is_weighted_determinant_sum_witness:
  "\<exists>out. ComputeVolumeAverageQuantities_impl (Invert3x3 0) new_HexElement unit_cube (\<lambda>_ _. 0)
           (\<lambda>p i. real p) (\<lambda>_. None) 1 = Inr (1, out)"
proof -
  have nondeg: "\<forall>p<8. 0 < \<bar>det3 (jacobian new_HexElement (current_coords unit_cube (\<lambda>_ _. 0)) p)\<bar>"
    unfolding unit_cube_current by (rule unit_cube_nondegenerate)
  have "(\<Sum>p<8. int_wts new_HexElement ! p
                * det3 (jacobian new_HexElement (current_coords unit_cube (\<lambda>_ _. 0)) p))
        = (\<Sum>p<(8::nat). 1 / 8)"
    unfolding unit_cube_current
    by (intro sum.cong) (simp_all add: unit_weights unit_cube_jacobian)
  then have "(\<Sum>p<8. int_wts new_HexElement ! p
                * det3 (jacobian new_HexElement (current_coords unit_cube (\<lambda>_ _. 0)) p)) = 1"
    by simp
  with volume_is_weighted_determinant_sum[OF nondeg, of "\<lambda>p i. real p" "\<lambda>_. None" 1]
  show ?thesis by auto
qed

lemma weighted_average_bounds:
  fixes D :: "nat \<Rightarrow> real"
  assumes pos: "\<forall>p<8. 0 < D p"
  shows "Min (f ` {..<8}) \<le> (\<Sum>p<8. f p * D p) / (\<Sum>p<8. D p)"
    and "(\<Sum>p<8. f p * D p) / (\<Sum>p<8. D p) \<le> Max (f ` {..<8})"
proof -
  have vol: "0 < (\<Sum>p<8. D p)"
    using pos by (intro sum_pos) (auto simp: lessThan_empty_iff)
  have "Min (f ` {..<8}) * (\<Sum>p<8. D p) = (\<Sum>p<8. Min (f ` {..<8}) * D p)"
    by (rule sum_distrib_left)
  also have "\<dots> \<le> (\<Sum>p<8. f p * D p)"
  proof (rule sum_mono)
    fix p :: nat assume p: "p \<in> {..<8}"
    then have "Min (f ` {..<8}) \<le> f p" by (intro Min_le) auto
    moreover from p pos have "0 < D p" by simp
    ultimately show "Min (f ` {..<8}) * D p \<le> f p * D p" by simp
  qed
  finally show "Min (f ` {..<8}) \<le> (\<Sum>p<8. f p * D p) / (\<Sum>p<8. D p)"
    using vol by (simp add: pos_le_divide_eq)
  have "(\<Sum>p<8. f p * D p) \<le> (\<Sum>p<8. Max (f ` {..<8}) * D p)"
  proof (rule sum_mono)
    fix p :: nat assume p: "p \<in> {..<8}"
    then have "f p \<le> Max (f ` {..<8})" by (intro Max_ge) auto
    moreover from p pos have "0 < D p" by simp
    ultimately show "f p * D p \<le> Max (f ` {..<8}) * D p" by simp
  qed
  also have "\<dots> = Max (f ` {..<8}) * (\<Sum>p<8. D p)"
    by (rule sum_distrib_left[symmetric])
  finally show "(\<Sum>p<8. f p * D p) / (\<Sum>p<8. D p) \<le> Max (f ` {..<8})"
    using vol by (simp add: pos_divide_le_eq)
qed

lemma weighted_average_constant:
  fixes D :: "nat \<Rightarrow> real"
  assumes "\<forall>p<8. 0 < D p" "\<forall>p<8. f p = c"
  shows "(\<Sum>p<8. f p * D p) / (\<Sum>p<8. D p) = c"
proof -
  have vol: "0 < (\<Sum>p<8. D p)"
    using assms(1) by (intro sum_pos) (auto simp: lessThan_empty_iff)
  have "(\<Sum>p<8. f p * D p) = (\<Sum>p<8. c * D p)"
    using assms(2) by (intro sum.cong) auto
  also have "\<dots> = c * (\<Sum>p<8. D p)"
    by (rule sum_distrib_left[symmetric])
  finally show ?thesis using vol by simp
qed

text \<open>
  Claim C7. For every geometry whose integration-point Jacobian determinants are
  strictly positive, the volume average either is refused as degenerate, which
  happens only when a determinant does not exceed the threshold of the inversion, or
  each averaged component is a finite number between the minimum and the maximum of
  that component over the eight integration points; a component that has the same
  value \<open>c\<close> at every integration point is averaged to exactly \<open>c\<close>.
\<close>

theorem volume_average_in_range:
  assumes pos: "\<forall>p<8. 0 < det3 (jacobian new_HexElement (current_coords rc disp) p)"
  shows "(\<exists>p<8. det3 (jacobian new_HexElement (current_coords rc disp) p) \<le> tol)
           \<and> ComputeVolumeAverageQuantities_impl (Invert3x3 tol) new_HexElement rc disp q out0 nq
               = Inl DegenerateGeometry
         \<or> (\<exists>volume out.
               ComputeVolumeAverageQuantities_impl (Invert3x3 tol) new_HexElement rc disp q out0 nq
                 = Inr (volume, out)
               \<and> (\<forall>i<nq. \<exists>v. out i = Some v
                      \<and> Min ((\<lambda>p. q p i) ` {..<8}) \<le> v \<and> v \<le> Max ((\<lambda>p. q p i) ` {..<8})
                      \<and> (\<forall>c. (\<forall>p<8. q p i = c) \<longrightarrow> v = c)))"
proof (cases "\<forall>p<8. tol < det3 (jacobian new_HexElement (current_coords rc disp) p)")
  case True
  let ?D = "\<lambda>p. det3 (jacobian new_HexElement (current_coords rc disp) p)"
  from True have nondeg: "\<forall>p<8. tol < \<bar>?D p\<bar>" by fastforce
  from volume_average_result[OF nondeg, of q out0 nq] obtain out where
    run: "ComputeVolumeAverageQuantities_impl (Invert3x3 tol) new_HexElement rc disp q out0 nq
            = Inr (\<Sum>p<8. ?D p, out)"
    and out: "\<forall>i<nq. out i = fp_div (\<Sum>p<8. q p i * int_wts new_HexElement ! p * ?D p) (\<Sum>p<8. ?D p)"
    by blast
  have vol: "0 < (\<Sum>p<8. ?D p)"
    using pos by (intro sum_pos) (auto simp: lessThan_empty_iff)
  have "\<exists>v. out i = Some v
          \<and> Min ((\<lambda>p. q p i) ` {..<8}) \<le> v \<and> v \<le> Max ((\<lambda>p. q p i) ` {..<8})
          \<and> (\<forall>c. (\<forall>p<8. q p i = c) \<longrightarrow> v = c)" if i: "i < nq" for i
  proof -
    have "(\<Sum>p<8. q p i * int_wts new_HexElement ! p * ?D p) = (\<Sum>p<8. q p i * ?D p)"
      by (intro sum.cong) (simp_all add: unit_weights)
    with out i vol have "out i = Some ((\<Sum>p<8. q p i * ?D p) / (\<Sum>p<8. ?D p))"
      by (simp add: fp_div_def)
    then show ?thesis
      using weighted_average_bounds[OF pos, of "\<lambda>p. q p i"] weighted_average_constant[OF pos, of "\<lambda>p. q p i"]
      by simp
  qed
  with run show ?thesis by blast
next
  case False
  then obtain p where p: "p < 8"
    and le: "det3 (jacobian new_HexElement (current_coords rc disp) p) \<le> tol"
    by (auto simp: not_less)
  with pos have "\<bar>det3 (jacobian new_HexElement (current_coords rc disp) p)\<bar> \<le> tol"
    by fastforce
  from volume_average_degenerate[OF p this] p le show ?thesis by blast
qed

theorem volume_average_in_range_witness:
  "\<exists>volume out v.
     ComputeVolumeAverageQuantities_impl (Invert3x3 0) new_HexElement unit_cube (\<lambda>_ _. 0)
       (\<lambda>p i. real p) (\<lambda>_. None) 1 = Inr (volume, out)
     \<and> out 0 = Some v
     \<and> Min ((\<lambda>p. real p) ` {..<8}) \<le> v \<and> v \<le> Max ((\<lambda>p. real p) ` {..<8})"
proof -
  have pos: "\<forall>p<8. 0 < det3 (jacobian new_HexElement (current_coords unit_cube (\<lambda>_ _. 0)) p)"
    unfolding unit_cube_current by (simp add: unit_cube_jacobian)
  have "\<not> (\<exists>p<8. det3 (jacobian new_HexElement (current_coords unit_cube (\<lambda>_ _. 0)) p) \<le> 0)"
    using pos by (simp add: not_le)
  with volume_average_in_range[OF pos, of 0 "\<lambda>p i. real p" "\<lambda>_. None" 1]
  show ?thesis by auto
qed

subsection \<open>Lumped mass\<close>

lemma sum_less_8:
  "(\<Sum>i<8. f i) = (f 0 + f 1 + f 2 + f 3 + f 4 + f 5 + f 6 + f (7::nat) :: real)"
  unfolding sum_list_upt8[symmetric] upt8 by simp

lemma partition_of_unity:
  "\<forall>p<8. (\<Sum>i<8. shape_fcn_vals new_HexElement ! (p * 8 + i)) = 1"
  unfolding all_less_8 sum_less_8
  by (simp add: new_HexElement_def gauss_points_def Let_def field_simps)

lemma inverter_loop_fails:
  assumes "p < 8" "\<bar>det3 (J p)\<bar> \<le> tol"
  shows "for_loop [0..<8]
           (\<lambda>int_pt s. case Invert3x3 tol (J int_pt) of Inl e \<Rightarrow> Inl e
                       | Inr (a_inv, det) \<Rightarrow> Inr (h int_pt a_inv det s)) s0
         = Inl DegenerateGeometry"
proof (rule for_loop_fails[where i = p])
  show "p \<in> set [0..<8]" using assms(1) by simp
next
  fix s
  show "(case Invert3x3 tol (J p) of Inl e \<Rightarrow> Inl e
         | Inr (a_inv, det) \<Rightarrow> Inr (h p a_inv det s)) = Inl DegenerateGeometry"
    using assms(2) by (simp add: Invert3x3_degenerate)
next
  fix j s e'
  show "e' = DegenerateGeometry" by (cases e') simp
qed

lemma Invert3x3_loop_ok:
  assumes "\<forall>p<8. tol < \<bar>det3 (J p)\<bar>"
  shows "for_loop [0..<8]
           (\<lambda>int_pt s. case Invert3x3 tol (J int_pt) of Inl e \<Rightarrow> Inl e
                       | Inr (a_inv, det) \<Rightarrow> Inr (h int_pt a_inv det s)) s0
         = Inr (fold (\<lambda>p. h p (scale3 (1 / det3 (J p)) (adjugate (J p))) (det3 (J p))) [0..<8] s0)"
proof (rule for_loop_ok)
  fix i s assume "i \<in> set [0..<8]"
  with assms have "tol < \<bar>det3 (J i)\<bar>" by simp
  then show "(case Invert3x3 tol (J i) of Inl e \<Rightarrow> Inl e
         | Inr (a_inv, det) \<Rightarrow> Inr (h i a_inv det s))
        = Inr (h i (scale3 (1 / det3 (J i)) (adjugate (J i))) (det3 (J i)) s)"
    by (simp add: Invert3x3_ok)
qed

lemma fold_lumped:
  "fold (\<lambda>p m. (\<lambda>i. if i < 8 then m i + c p i else m i)) ps m0
     = (\<lambda>i. if i < (8::nat) then m0 i + sum_list (map (\<lambda>p. c p i) ps) else (m0 i :: real))"
  by (induction ps arbitrary: m0) (auto simp: fun_eq_iff)

lemma lumped_mass_result:
  assumes nondeg: "\<forall>p<8. tol < \<bar>det3 (jacobian el rc p)\<bar>"
  shows "ComputeLumpedMass (Invert3x3 tol) el density rc
         = Inr (\<lambda>i. if i < 8
                     then \<Sum>p<8. int_wts el ! p * density * shape_fcn_vals el ! (p * 8 + i)
                                   * det3 (jacobian el rc p)
                     else 0)"
proof -
  have node: "fold (\<lambda>i m. m(i := m i + c i)) [0..<8] = (\<lambda>m i. if i < 8 then m i + c i else m i)"
    for c :: "nat \<Rightarrow> real"
  proof
    fix m :: "nat \<Rightarrow> real"
    show "fold (\<lambda>i m. m(i := m i + c i)) [0..<8] m = (\<lambda>i. if i < 8 then m i + c i else m i)"
      by (subst fold_upd_dep[where g = "\<lambda>i x. x + c i"]) auto
  qed
  show ?thesis
    unfolding ComputeLumpedMass_def num_int_pts_def num_nodes_def
    by (subst Invert3x3_loop_ok[where J = "jacobian el rc", OF nondeg])
       (simp add: node fold_lumped sum_list_upt8 cong: if_cong)
qed

lemma consistent_mass_result:
  assumes nondeg: "\<forall>p<8. tol < \<bar>det3 (jacobian el rc p)\<bar>"
  shows "\<exists>M. ComputeConsistentMass_impl (Invert3x3 tol) el density rc M0 = Inr M
           \<and> (\<forall>i<8. \<forall>j<8. M i j =
                 (\<Sum>p<8. int_wts el ! p * density * shape_fcn_vals el ! (p * 8 + i)
                           * shape_fcn_vals el ! (p * 8 + j) * det3 (jacobian el rc p)))"
proof -
  let ?jd = "\<lambda>p. if p \<in> set [0..<8] then det3 (jacobian el rc p) else 0"
  have jd: "fold (\<lambda>p jac_det. jac_det(p := det3 (jacobian el rc p))) [0..<8] (\<lambda>_. 0) = ?jd"
    by (rule fold_upd_indep)
  have "ComputeConsistentMass_impl (Invert3x3 tol) el density rc M0
        = Inr (fold (\<lambda>i M. M(i := fold (\<lambda>j row. row(j := mass_entry el density ?jd i j))
                                     [0..<8] (M i))) [0..<8] M0)"
    unfolding ComputeConsistentMass_impl_def num_int_pts_def num_nodes_def
    by (subst Invert3x3_loop_ok[where J = "jacobian el rc", OF nondeg]) (simp only: jd sum.case)
  moreover have "mass_entry el density ?jd i j
      = (\<Sum>p<8. int_wts el ! p * density * shape_fcn_vals el ! (p * 8 + i)
                           * shape_fcn_vals el ! (p * 8 + j) * det3 (jacobian el rc p))" for i j
    unfolding mass_entry_sum by (rule sum.cong) simp_all
  ultimately show ?thesis
    by (simp add: consistent_mass_rows)
qed

text \<open>
  Claim C3. For every density and every set of reference coordinates whose
  integration-point Jacobians are non-degenerate, the lumped masses of the eight
  nodes add up to the density times the integrated reference volume, the sum over the
  integration points of weight times Jacobian determinant. The same total is the sum
  of all entries of the consistent mass matrix, so that lumping by row sums gives the
  same result.
\<close>

theorem lumped_mass_total:
  assumes nondeg: "\<forall>p<8. tol < \<bar>det3 (jacobian new_HexElement rc p)\<bar>"
  shows "(\<exists>m. ComputeLumpedMass (Invert3x3 tol) new_HexElement density rc = Inr m
            \<and> (\<Sum>i<8. m i)
                = density * (\<Sum>p<8. int_wts new_HexElement ! p * det3 (jacobian new_HexElement rc p)))
       \<and> (\<exists>M. ComputeConsistentMass_impl (Invert3x3 tol) new_HexElement density rc M0 = Inr M
            \<and> (\<Sum>i<8. \<Sum>j<8. M i j)
                = density * (\<Sum>p<8. int_wts new_HexElement ! p * det3 (jacobian new_HexElement rc p)))"
proof -
  let ?w = "\<lambda>p. int_wts new_HexElement ! p"
  let ?N = "\<lambda>p i. shape_fcn_vals new_HexElement ! (p * 8 + i)"
  let ?D = "\<lambda>p. det3 (jacobian new_HexElement rc p)"
  have unity: "(\<Sum>i<8. ?N p i) = 1" if "p < 8" for p
    using partition_of_unity that by blast
  have rows: "(\<Sum>i<8. ?w p * density * ?N p i * ?D p) = density * (?w p * ?D p)" if "p < 8" for p
  proof -
    have "(\<Sum>i<8. ?w p * density * ?N p i * ?D p) = (\<Sum>i<8. (?w p * density * ?D p) * ?N p i)"
      by (intro sum.cong) (simp_all add: mult_ac)
    also have "\<dots> = (?w p * density * ?D p) * (\<Sum>i<8. ?N p i)"
      by (rule sum_distrib_left[symmetric])
    finally show ?thesis using unity[OF that] by (simp add: mult_ac)
  qed
  have total: "(\<Sum>i<8. \<Sum>p<8. ?w p * density * ?N p i * ?D p) = density * (\<Sum>p<8. ?w p * ?D p)"
  proof -
    have "(\<Sum>i<8. \<Sum>p<8. ?w p * density * ?N p i * ?D p)
          = (\<Sum>p<8. \<Sum>i<8. ?w p * density * ?N p i * ?D p)"
      by (rule sum.swap)
    also have "\<dots> = (\<Sum>p<8. density * (?w p * ?D p))"
      by (intro sum.cong) (simp_all add: rows)
    also have "\<dots> = density * (\<Sum>p<8. ?w p * ?D p)"
      by (rule sum_distrib_left[symmetric])
    finally show ?thesis .
  qed
  have lumped: "\<exists>m. ComputeLumpedMass (Invert3x3 tol) new_HexElement density rc = Inr m
            \<and> (\<Sum>i<8. m i) = density * (\<Sum>p<8. ?w p * ?D p)"
    using total by (simp add: lumped_mass_result[OF nondeg])
  from consistent_mass_result[OF nondeg, of density M0] obtain M where
    run: "ComputeConsistentMass_impl (Invert3x3 tol) new_HexElement density rc M0 = Inr M"
    and M: "\<forall>i<8. \<forall>j<8. M i j = (\<Sum>p<8. ?w p * density * ?N p i * ?N p j * ?D p)"
    by blast
  have row_sum: "(\<Sum>j<8. M i j) = (\<Sum>p<8. ?w p * density * ?N p i * ?D p)" if i: "i < 8" for i
  proof -
    have "(\<Sum>j<8. M i j) = (\<Sum>j<8. \<Sum>p<8. ?w p * density * ?N p i * ?N p j * ?D p)"
      using M i by (intro sum.cong) simp_all
    also have "\<dots> = (\<Sum>p<8. \<Sum>j<8. ?w p * density * ?N p i * ?N p j * ?D p)"
      by (rule sum.swap)
    also have "\<dots> = (\<Sum>p<8. ?w p * density * ?N p i * ?D p)"
    proof (rule sum.cong)
      fix p :: nat assume "p \<in> {..<8}"
      then have p: "p < 8" by simp
      have "(\<Sum>j<8. ?w p * density * ?N p i * ?N p j * ?D p)
            = (\<Sum>j<8. (?w p * density * ?N p i * ?D p) * ?N p j)"
        by (intro sum.cong) (simp_all add: mult_ac)
      also have "\<dots> = (?w p * density * ?N p i * ?D p) * (\<Sum>j<8. ?N p j)"
        by (rule sum_distrib_left[symmetric])
      finally show "(\<Sum>j<8. ?w p * density * ?N p i * ?N p j * ?D p) = ?w p * density * ?N p i * ?D p"
        using unity[OF p] by simp
    qed simp
    finally show ?thesis .
  qed
  have "(\<Sum>i<8. \<Sum>j<8. M i j) = (\<Sum>i<8. \<Sum>p<8. ?w p * density * ?N p i * ?D p)"
    by (rule sum.cong) (simp_all add: row_sum)
  with total run lumped show ?thesis by auto
qed

theorem lumped_mass_total_witness:
  "(\<exists>m. ComputeLumpedMass (Invert3x3 0) new_HexElement 2 unit_cube = Inr m \<and> (\<Sum>i<8. m i) = 2)
   \<and> (\<exists>M. ComputeConsistentMass_impl (Invert3x3 0) new_HexElement 2 unit_cube (\<lambda>_ _. 0) = Inr M
          \<and> (\<Sum>i<8. \<Sum>j<8. M i j) = 2)"
proof -
  have "(\<Sum>p<8. int_wts new_HexElement ! p * det3 (jacobian new_HexElement unit_cube p))
        = (\<Sum>p<(8::nat). 1 / 8)"
    by (intro sum.cong) (simp_all add: unit_weights unit_cube_jacobian)
  then have "2 * (\<Sum>p<8. int_wts new_HexElement ! p * det3 (jacobian new_HexElement unit_cube p)) = 2"
    by simp
  with lumped_mass_total[OF unit_cube_nondegenerate, of 2 "\<lambda>_ _. 0"]
  show ?thesis by simp
qed

subsection \<open>Degenerate geometry\<close>

lemma deformation_gradients_loop:
  "ComputeDeformationGradients_impl inv3x3 el rc disp dg0 =
     for_loop [0..<8]
       (\<lambda>int_pt dg. case inv3x3 (jacobian el rc int_pt) of Inl e \<Rightarrow> Inl e
          | Inr (b_inv, det) \<Rightarrow>
              Inr (dg(int_pt := store_def_grad
                     (mat_mul (jacobian el (current_coords rc disp) int_pt) b_inv) (dg int_pt))))
       dg0"
  unfolding ComputeDeformationGradients_impl_def jacobian_def num_nodes_def
  by (simp add: fold_pair_jacobian)

lemma jacobian_origin: "jacobian el (\<lambda>_ _. 0) p = zero3"
proof -
  have "jacobian el (\<lambda>_ _. 0) p = scale3 0 (jacobian el (\<lambda>_ _. 0) p)"
    by (rule jacobian_scale) simp
  also have "\<dots> = zero3"
    by (cases "jacobian el (\<lambda>_ _. 0) p" rule: det3.cases) (simp add: zero3_def)
  finally show ?thesis .
qed

lemma Invert3x3_Inr_nonzero: "0 \<le> tol \<Longrightarrow> Invert3x3 tol m = Inr r \<Longrightarrow> det3 m \<noteq> 0"
  by (auto simp: Invert3x3_def Let_def split: if_splits)

text \<open>
  Claim C1. A matrix whose determinant is at or below the threshold in magnitude makes
  \<^verbatim>\<open>Invert3x3\<close> signal \<open>DegenerateGeometry\<close>, and with a threshold that is not
  negative a successful inversion never divides by zero. Every kernel that calls the
  inversion hands the condition on as its own result and produces no output: the
  consistent and the lumped mass, the deformation gradients and the tangent when a
  Jacobian of the coordinates they are given is degenerate, the nodal forces and the
  volume average when a current-configuration Jacobian is.
\<close>

theorem degenerate_geometry_propagates:
  "(\<bar>det3 m\<bar> \<le> tol \<longrightarrow> Invert3x3 tol m = Inl DegenerateGeometry)
   \<and> (0 \<le> tol \<longrightarrow> (\<forall>r. Invert3x3 tol m = Inr r \<longrightarrow> det3 m \<noteq> 0))
   \<and> ((\<exists>p<8. \<bar>det3 (jacobian el rc p)\<bar> \<le> tol) \<longrightarrow>
          ComputeConsistentMass_impl (Invert3x3 tol) el density rc M0 = Inl DegenerateGeometry
        \<and> ComputeLumpedMass (Invert3x3 tol) el density rc = Inl DegenerateGeometry
        \<and> ComputeDeformationGradients_impl (Invert3x3 tol) el rc disp dg0 = Inl DegenerateGeometry
        \<and> ComputeTangent (Invert3x3 tol) integrate el rc C K0 = Inl DegenerateGeometry)
   \<and> ((\<exists>p<8. \<bar>det3 (jacobian el (current_coords rc disp) p)\<bar> \<le> tol) \<longrightarrow>
          ComputeNodalForces_impl (Invert3x3 tol) el rc disp S nf0 = Inl DegenerateGeometry
        \<and> ComputeVolumeAverageQuantities_impl (Invert3x3 tol) el rc disp q out0 nq
            = Inl DegenerateGeometry)"
proof (intro conjI impI allI)
  assume "\<bar>det3 m\<bar> \<le> tol"
  then show "Invert3x3 tol m = Inl DegenerateGeometry"
    by (rule Invert3x3_degenerate)
next
  fix r assume "0 \<le> tol" "Invert3x3 tol m = Inr r"
  then show "det3 m \<noteq> 0" by (rule Invert3x3_Inr_nonzero)
next
  assume "\<exists>p<8. \<bar>det3 (jacobian el rc p)\<bar> \<le> tol"
  then obtain p where p: "p < 8" "\<bar>det3 (jacobian el rc p)\<bar> \<le> tol" by blast
  show "ComputeConsistentMass_impl (Invert3x3 tol) el density rc M0 = Inl DegenerateGeometry"
    unfolding ComputeConsistentMass_impl_def num_int_pts_def
    by (subst inverter_loop_fails[where J = "jacobian el rc", OF p]) simp
  show "ComputeLumpedMass (Invert3x3 tol) el density rc = Inl DegenerateGeometry"
    unfolding ComputeLumpedMass_def num_int_pts_def
    by (rule inverter_loop_fails[where J = "jacobian el rc", OF p])
  show "ComputeDeformationGradients_impl (Invert3x3 tol) el rc disp dg0 = Inl DegenerateGeometry"
    unfolding deformation_gradients_loop
    by (rule inverter_loop_fails[where J = "jacobian el rc", OF p])
  show "ComputeTangent (Invert3x3 tol) integrate el rc C K0 = Inl DegenerateGeometry"
    unfolding ComputeTangent_def num_int_pts_def
    by (rule inverter_loop_fails[where J = "jacobian el rc", OF p])
next
  assume "\<exists>p<8. \<bar>det3 (jacobian el (current_coords rc disp) p)\<bar> \<le> tol"
  then obtain p where p: "p < 8" "\<bar>det3 (jacobian el (current_coords rc disp) p)\<bar> \<le> tol"
    by blast
  show "ComputeNodalForces_impl (Invert3x3 tol) el rc disp S nf0 = Inl DegenerateGeometry"
    unfolding ComputeNodalForces_impl_def num_int_pts_def
    by (subst inverter_loop_fails[where J = "jacobian el (current_coords rc disp)", OF p]) simp
  show "ComputeVolumeAverageQuantities_impl (Invert3x3 tol) el rc disp q out0 nq
            = Inl DegenerateGeometry"
    by (rule volume_average_degenerate[OF p])
qed

theorem degenerate_geometry_propagates_witness:
  "\<bar>det3 zero3\<bar> \<le> 0
   \<and> (\<exists>p<8. \<bar>det3 (jacobian new_HexElement (\<lambda>_ _. 0) p)\<bar> \<le> 0)
   \<and> (\<exists>p<8. \<bar>det3 (jacobian new_HexElement (current_coords (\<lambda>_ _. 0) (\<lambda>_ _. 0)) p)\<bar> \<le> 0)
   \<and> Invert3x3 0 zero3 = Inl DegenerateGeometry
   \<and> Invert3x3 0 (diag3 1) = Inr (diag3 1, 1) \<and> det3 (diag3 1) \<noteq> 0
   \<and> ComputeConsistentMass_impl (Invert3x3 0) new_HexElement 1 (\<lambda>_ _. 0) (\<lambda>_ _. 0)
       = Inl DegenerateGeometry
   \<and> ComputeLumpedMass (Invert3x3 0) new_HexElement 1 (\<lambda>_ _. 0) = Inl DegenerateGeometry
   \<and> ComputeDeformationGradients_impl (Invert3x3 0) new_HexElement (\<lambda>_ _. 0) (\<lambda>_ _. 0) (\<lambda>_ _. 0)
       = Inl DegenerateGeometry
   \<and> ComputeTangent (Invert3x3 0) (\<lambda>C p a_inv jac_det K. K + C * jac_det) new_HexElement (\<lambda>_ _. 0)
       (1::real) (0::real) = Inl DegenerateGeometry
   \<and> ComputeNodalForces_impl (Invert3x3 0) new_HexElement (\<lambda>_ _. 0) (\<lambda>_ _. 0) (\<lambda>_ _. 1) (\<lambda>_ _. 0)
       = Inl DegenerateGeometry
   \<and> ComputeVolumeAverageQuantities_impl (Invert3x3 0) new_HexElement (\<lambda>_ _. 0) (\<lambda>_ _. 0)
       (\<lambda>_ _. 1) (\<lambda>_. None) 1 = Inl DegenerateGeometry"
proof -
  have z: "\<bar>det3 zero3\<bar> \<le> 0" by (simp add: zero3_def)
  have cur: "current_coords (\<lambda>_ _. 0) (\<lambda>_ _. 0) = (\<lambda>_ _. 0)"
    by (simp add: current_coords_def)
  have d0: "\<exists>p<8. \<bar>det3 (jacobian new_HexElement (\<lambda>_ _. 0) p)\<bar> \<le> 0"
    using z by (auto simp: jacobian_origin intro: exI[of _ 0])
  have d1: "\<exists>p<8. \<bar>det3 (jacobian new_HexElement (current_coords (\<lambda>_ _. 0) (\<lambda>_ _. 0)) p)\<bar> \<le> 0"
    unfolding cur by (rule d0)
  note a = degenerate_geometry_propagates[where tol = 0 and el = new_HexElement
      and rc = "\<lambda>_ _. 0" and density = 1 and ?M0.0 = "\<lambda>_ _. 0" and disp = "\<lambda>_ _. 0"
      and ?dg0.0 = "\<lambda>_ _. 0" and integrate = "\<lambda>C p a_inv jac_det K. K + C * jac_det"
      and C = "1::real" and ?K0.0 = "0::real" and S = "\<lambda>_ _. 1" and ?nf0.0 = "\<lambda>_ _. 0"
      and q = "\<lambda>_ _. 1" and ?out0.0 = "\<lambda>_. None" and nq = 1 and m = zero3]
  have i: "Invert3x3 0 (diag3 1) = Inr (diag3 1, 1)"
    by (simp add: Invert3x3_def diag3_def)
  note b = degenerate_geometry_propagates[where tol = 0 and el = new_HexElement
      and rc = "\<lambda>_ _. 0" and density = 1 and ?M0.0 = "\<lambda>_ _. 0" and disp = "\<lambda>_ _. 0"
      and ?dg0.0 = "\<lambda>_ _. 0" and integrate = "\<lambda>C p a_inv jac_det K. K + C * jac_det"
      and C = "1::real" and ?K0.0 = "0::real" and S = "\<lambda>_ _. 1" and ?nf0.0 = "\<lambda>_ _. 0"
      and q = "\<lambda>_ _. 1" and ?out0.0 = "\<lambda>_. None" and nq = 1 and m = "diag3 1"]
  from a b i z d0 d1 show ?thesis by simp
qed

section \<open>The kernels in binary64 arithmetic: properties\<close>

subsection \<open>The rounding\<close>

text \<open>
  \<open>bit_length\<close> is the bit length of the library, and \<open>rnd\<close> returns a number
  within half a unit in the last place of the exact value: its relative error is at
  most \<open>2 powr (- 53)\<close>.
\<close>

lemma bitlen_div_pow2:
  "0 < a \<Longrightarrow> 2 ^ k \<le> a \<Longrightarrow> bitlen (a div 2 ^ k) + int k = bitlen a"
proof (induction k arbitrary: a)
  case 0
  then show ?case by simp
next
  case (Suc k)
  have one: "(1::int) \<le> 2 ^ k" by simp
  from Suc.prems have "2 * (2 ^ k :: int) \<le> a" by simp
  with one have a2: "0 < a div 2" "2 ^ k \<le> a div 2"
    by arith+
  have "a div 2 ^ Suc k = (a div 2) div 2 ^ k"
    by (simp add: zdiv_zmult2_eq)
  with Suc.IH[OF a2] have "bitlen (a div 2 ^ Suc k) + int k = bitlen (a div 2)" by simp
  moreover have "bitlen a = bitlen (a div 2) + 1"
    using Suc.prems(1) by (subst compute_bitlen) simp
  ultimately show ?case by simp
qed

lemma bit_length_bitlen: "bit_length a = bitlen a"
proof (induction a rule: bit_length.induct)
  case (1 a)
  show ?case
  proof (cases "a \<le> 0")
    case True
    then show ?thesis by (subst bit_length.simps) (simp add: bitlen_alt_def)
  next
    case pos: False
    show ?thesis
    proof (cases "2 ^ 64 \<le> a")
      case True
      with pos 1(1) have "bit_length (a div 2 ^ 64) = bitlen (a div 2 ^ 64)" by simp
      moreover from bitlen_div_pow2[of a 64] pos True have "bitlen (a div 2 ^ 64) + 64 = bitlen a"
        by simp
      ultimately show ?thesis using pos True by (subst bit_length.simps) simp
    next
      case small: False
      show ?thesis
      proof (cases "2 ^ 8 \<le> a")
        case True
        with pos small 1(2) have "bit_length (a div 2 ^ 8) = bitlen (a div 2 ^ 8)" by simp
        moreover from bitlen_div_pow2[of a 8] pos True have "bitlen (a div 2 ^ 8) + 8 = bitlen a"
          by simp
        ultimately show ?thesis using pos small True by (subst bit_length.simps) simp
      next
        case False
        with pos small 1(3) have "bit_length (a div 2) = bitlen (a div 2)" by simp
        moreover have "bitlen a = bitlen (a div 2) + 1"
          using pos by (subst compute_bitlen) simp
        ultimately show ?thesis using pos small False by (subst bit_length.simps) simp
      qed
    qed
  qed
qed

lemma pow2_shift:
  "real_of_int (x * 2 ^ k) * 2 powr (of_int (e - int k)) = of_int x * 2 powr of_int e"
proof -
  have "(2::real) powr (of_int e - real k) = 2 powr of_int e / 2 ^ k"
    by (simp add: powr_diff powr_realpow)
  then show ?thesis by simp
qed

lemma pow2_unshift:
  "real_of_int x * 2 powr (of_int (e + int k)) = of_int (x * 2 ^ k) * 2 powr of_int e"
proof -
  have "(2::real) powr (of_int e + real k) = 2 powr of_int e * 2 ^ k"
    by (simp add: powr_add powr_realpow)
  then show ?thesis by simp
qed

lemma rnd_nearest:
  "\<exists>M. double_val (rnd m e) = of_int M * 2 powr of_int e \<and> \<bar>M - m\<bar> * 2 ^ 53 \<le> \<bar>m\<bar>"
proof (cases "m = 0")
  case True
  then show ?thesis by (simp add: rnd_def double_val_def)
next
  case nz: False
  define a where "a = \<bar>m\<bar>"
  define n where "n = bitlen a"
  have a: "0 < a" using nz by (simp add: a_def)
  show ?thesis
  proof (cases "53 < n")
    case False
    then have "rnd m e = Dbl (m * 2 ^ nat (53 - n)) (e - int (nat (53 - n)))"
      using nz by (simp add: rnd_def Let_def a_def n_def bit_length_bitlen)
    then have "double_val (rnd m e) = of_int m * 2 powr of_int e"
      by (simp only: double_val_def double.case pow2_shift)
    then show ?thesis by (intro exI[of _ m]) simp
  next
    case big: True
    define k where "k = nat (n - 53)"
    define q where "q = a div 2 ^ k"
    define r where "r = a mod 2 ^ k"
    define half :: int where "half = 2 ^ (k - 1)"
    define q' where "q' = (if half < r \<or> (r = half \<and> odd q) then q + 1 else q)"
    have k: "0 < k" "int k = n - 53" using big by (simp_all add: k_def)
    have split: "a = q * 2 ^ k + r" by (simp only: q_def r_def div_mult_mod_eq)
    have r: "0 \<le> r" "r < 2 ^ k" by (simp_all add: r_def)
    have half2: "2 * half = 2 ^ k"
      using k(1) by (cases k) (simp_all add: half_def)
    have near: "\<bar>q' * 2 ^ k - a\<bar> \<le> half"
    proof (cases "half < r \<or> (r = half \<and> odd q)")
      case True
      then have "q' * 2 ^ k - a = 2 ^ k - r" by (simp add: q'_def split algebra_simps)
      with True r half2 show ?thesis by auto
    next
      case False
      then have "q' * 2 ^ k - a = - r" by (simp add: q'_def split)
      with False r show ?thesis by auto
    qed
    have "2 ^ nat (n - 1) \<le> a"
      using bitlen_bounds[OF a] by (simp add: n_def)
    moreover have "nat (n - 1) = 52 + k" using big by (simp add: k_def)
    ultimately have lower: "2 ^ (52 + k) \<le> a" by simp
    have "half * 2 ^ 53 = 2 ^ (52 + k)"
    proof -
      have "half * 2 ^ 53 = (2 * half) * 2 ^ 52" by simp
      also have "\<dots> = 2 ^ k * 2 ^ 52" by (simp only: half2)
      also have "\<dots> = 2 ^ (52 + k)" by (simp add: power_add)
      finally show ?thesis .
    qed
    moreover have "\<bar>q' * 2 ^ k - a\<bar> * 2 ^ 53 \<le> half * 2 ^ 53"
      using near by (intro mult_right_mono) simp_all
    ultimately have bound: "\<bar>q' * 2 ^ k - a\<bar> * 2 ^ 53 \<le> a"
      using lower by linarith
    have m: "m = sgn m * a" by (simp add: a_def mult_sgn_abs)
    have "\<bar>sgn m * q' * 2 ^ k - m\<bar> = \<bar>sgn m * (q' * 2 ^ k - a)\<bar>"
      by (subst (2) m) (simp add: algebra_simps)
    also have "\<dots> = \<bar>q' * 2 ^ k - a\<bar>"
      using nz by (simp add: abs_mult)
    finally have dist: "\<bar>sgn m * q' * 2 ^ k - m\<bar> * 2 ^ 53 \<le> \<bar>m\<bar>"
      using bound by (simp add: a_def)
    have big': "53 < bitlen \<bar>m\<bar>" using big by (simp only: n_def a_def)
    have R: "rnd m e = (if q' = 2 ^ 53 then Dbl (sgn m * 2 ^ 52) (e + int k + 1)
                        else Dbl (sgn m * q') (e + int k))"
      by (simp only: rnd_def Let_def bit_length_bitlen nz big' if_False if_True
          q'_def half_def r_def q_def k_def n_def a_def)
    have val: "double_val (rnd m e) = of_int (sgn m * q' * 2 ^ k) * 2 powr of_int e"
    proof (cases "q' = 2 ^ 53")
      case True
      have "rnd m e = Dbl (sgn m * 2 ^ 52) (e + int k + 1)"
        unfolding R by (rule if_P) (rule True)
      also have "e + int k + 1 = e + int (k + 1)" by simp
      finally have "rnd m e = Dbl (sgn m * 2 ^ 52) (e + int (k + 1))" .
      then have "double_val (rnd m e) = of_int (sgn m * 2 ^ 52 * 2 ^ (k + 1)) * 2 powr of_int e"
        by (simp only: double_val_def double.case pow2_unshift)
      also have "sgn m * 2 ^ 52 * 2 ^ (k + 1) = sgn m * q' * 2 ^ k"
        by (simp add: True)
      finally show ?thesis .
    next
      case False
      have "rnd m e = Dbl (sgn m * q') (e + int k)"
        unfolding R by (rule if_not_P) (rule False)
      then show ?thesis
        by (simp only: double_val_def double.case pow2_unshift)
    qed
    from val dist show ?thesis by blast
  qed
qed

theorem rnd_relative_error:
  "\<bar>double_val (rnd m e) - of_int m * 2 powr of_int e\<bar>
     \<le> 2 powr (- 53) * \<bar>of_int m * 2 powr of_int e\<bar>"
proof -
  from rnd_nearest[of m e] obtain M where
    val: "double_val (rnd m e) = of_int M * 2 powr of_int e"
    and near: "\<bar>M - m\<bar> * 2 ^ 53 \<le> \<bar>m\<bar>"
    by blast
  have "\<bar>double_val (rnd m e) - of_int m * 2 powr of_int e\<bar>
        = \<bar>of_int (M - m)\<bar> * 2 powr of_int e"
    by (simp add: val abs_mult flip: left_diff_distrib)
  also have "\<bar>of_int (M - m) :: real\<bar> \<le> \<bar>of_int m\<bar> / 2 ^ 53"
  proof -
    from near have "of_int (\<bar>M - m\<bar> * 2 ^ 53) \<le> (of_int \<bar>m\<bar> :: real)"
      by (simp only: of_int_le_iff)
    then show ?thesis by (simp add: field_simps)
  qed
  finally have "\<bar>double_val (rnd m e) - of_int m * 2 powr of_int e\<bar>
                  \<le> \<bar>of_int m\<bar> / 2 ^ 53 * 2 powr of_int e"
    by (simp add: mult_right_mono)
  also have "\<dots> = 2 powr (- 53) * \<bar>of_int m * 2 powr of_int e\<bar>"
    by (simp add: abs_mult powr_minus_divide)
  finally show ?thesis .
qed

lemma double_sqrt3_nearest:
  "\<bar>double_val double_sqrt3 - sqrt 3\<bar> < 2 powr (- 53)"
proof -
  have v: "double_val double_sqrt3 = 7800463371553962 / 2 ^ 52"
    by (simp add: double_val_def double_sqrt3_def powr_minus_divide)
  have lo: "(7800463371553962 / 2 ^ 52 - 1 / 2 ^ 53 :: real) < sqrt 3"
    by (rule real_less_rsqrt) (simp add: power2_eq_square)
  have hi: "sqrt 3 < (7800463371553962 / 2 ^ 52 + 1 / 2 ^ 53 :: real)"
    by (rule real_less_lsqrt) (simp_all add: power2_eq_square)
  have "(2::real) powr (- 53) = 1 / 2 ^ 53"
    by (simp add: powr_minus_divide)
  with v lo hi show ?thesis by linarith
qed

text \<open>
  Known values of binary64 arithmetic: ties go to the even significand,
  \<^verbatim>\<open>1.0 / 10.0\<close> is \<^verbatim>\<open>0x1.999999999999ap-4\<close>, and
  \<^verbatim>\<open>0.1 + 0.2\<close> is \<^verbatim>\<open>0x1.3333333333334p-2\<close>, not the number nearest to
  three tenths.
\<close>

lemma rnd_ties_to_even: "rnd (2 ^ 53 + 1) 0 = Dbl (2 ^ 52) 1" "rnd (2 ^ 53 + 3) 0 = Dbl (2 ^ 52 + 2) 1"
  by code_simp+

lemma double_tenth: "rnd 1 0 / rnd 10 0 = Dbl 7205759403792794 (- 56)"
  by code_simp

lemma double_tenth_plus_fifth: "Dbl 7205759403792794 (- 56) + Dbl 7205759403792794 (- 55) = Dbl 5404319552844596 (- 54)"
  by code_simp

subsection \<open>The kernels over the reals\<close>

text \<open>
  Over \<^typ>\<open>real\<close> the kernels written for an arbitrary scalar type are the kernels
  of the exact reading, and the element built from \<open>1 / sqrt 3\<close> is the element of
  the exact reading: the theorems of the exact reading and the evaluations in binary64
  are about one text.
\<close>

lemma accumulate_poly_real: "accumulate_poly = accumulate"
proof (intro ext)
  fix a :: mat3 and c s :: vec3
  show "accumulate_poly a c s = accumulate a c s"
    by (cases a rule: det3.cases, cases c rule: prod_cases3, cases s rule: prod_cases3) simp
qed

lemma sfd_poly_real: "sfd_poly (tables_of el) = sfd el"
  by (intro ext) (simp add: sfd_poly_def sfd_def tables_of_def)

lemma jacobian_poly_real: "jacobian_poly (tables_of el) = jacobian el"
  unfolding jacobian_poly_def jacobian_def accumulate_poly_real sfd_poly_real coords_of_def
    zero3_def
  by (rule refl)

lemma det3_poly_real: "det3_poly = det3"
proof
  fix m :: mat3
  show "det3_poly m = det3 m" by (cases m rule: det3.cases) simp
qed

lemma adjugate_poly_real: "adjugate_poly = adjugate"
proof
  fix m :: mat3
  show "adjugate_poly m = adjugate m" by (cases m rule: det3.cases) simp
qed

lemma divide3_real: "divide3 m d = scale3 (1 / d) m"
  by (cases m rule: det3.cases) simp

lemma Invert3x3_poly_real: "Invert3x3_poly tol = Invert3x3 tol"
  by (intro ext)
     (simp add: Invert3x3_poly_def Invert3x3_def Let_def det3_poly_real adjugate_poly_real
       divide3_real)

lemma mass_entry_poly_real: "mass_entry_poly (tables_of el) = mass_entry el"
  by (intro ext) (simp add: mass_entry_poly_def mass_entry_def tables_of_def)

lemma ComputeConsistentMass_impl_poly_real:
  "ComputeConsistentMass_impl_poly inv3x3 (tables_of el) = ComputeConsistentMass_impl inv3x3 el"
  unfolding ComputeConsistentMass_impl_poly_def ComputeConsistentMass_impl_def
    jacobian_poly_real mass_entry_poly_real
  by (rule refl)

lemma mat_mul_poly_real: "mat_mul_poly = mat_mul"
proof (intro ext)
  fix a b :: mat3
  show "mat_mul_poly a b = mat_mul a b"
    by (cases a rule: det3.cases, cases b rule: det3.cases) simp
qed

lemma store_def_grad_poly_real: "store_def_grad_poly = store_def_grad"
proof (intro ext)
  fix f :: mat3 and row :: "nat \<Rightarrow> real" and c :: nat
  show "store_def_grad_poly f row c = store_def_grad f row c"
    by (cases f rule: det3.cases) simp
qed

lemma ComputeDeformationGradients_impl_poly_real:
  "ComputeDeformationGradients_impl_poly inv3x3 (tables_of el)
     = ComputeDeformationGradients_impl inv3x3 el"
  unfolding ComputeDeformationGradients_impl_poly_def ComputeDeformationGradients_impl_def
    accumulate_poly_real sfd_poly_real mat_mul_poly_real store_def_grad_poly_real
    coords_of_def current_coords_def zero3_def
  by (rule refl)

lemma ShapeFunctionValues_poly_real: "ShapeFunctionValues_poly 8 xs = ShapeFunctionValues xs"
  by (induction xs rule: ShapeFunctionValues.induct) simp_all

lemma ShapeFunctionDerivatives_poly_real:
  "ShapeFunctionDerivatives_poly 8 xs = ShapeFunctionDerivatives xs"
  by (induction xs rule: ShapeFunctionDerivatives.induct) simp_all

lemma new_HexElement_poly_real: "new_HexElement_poly 8 gauss_coord = tables_of new_HexElement"
  by (simp add: new_HexElement_poly_def tables_of_def new_HexElement_def gauss_points_poly_def
      gauss_points_def Let_def ShapeFunctionValues_poly_real ShapeFunctionDerivatives_poly_real)

subsection \<open>Evaluation at the unit cube\<close>











subsection \<open>Deformation gradients in binary64\<close>








subsection \<open>Consistent mass in binary64\<close>






end
